theory Spec2Isabelle
  imports Complex_Main "HOL-Library.Multiset"
begin

section \<open>JavaScript values used by server.js\<close>

text \<open>
  Strings are lists of characters and stand for sequences of ASCII code units. Numbers of
  the program are IEEE doubles. Prices and the bounds read by \<open>parseFloat\<close> are taken
  as exact rationals, with the three non-finite results of \<open>parseFloat\<close> kept apart;
  their rounding is not modelled. The integers read by \<open>parseInt\<close> are rounded to
  doubles as the code rounds them.
\<close>

type_synonym query = "string \<rightharpoonup> string"

datatype jsnum = NaN | Fin rat | PosInf | NegInf

text \<open>White space that \<open>trim\<close>, \<open>parseInt\<close> and \<open>parseFloat\<close> skip (ASCII part):
  tab, line feed, vertical tab, form feed, carriage return, space.\<close>

definition isWhiteSpace :: "char \<Rightarrow> bool" where
  "isWhiteSpace c = (of_char c \<in> {9::nat, 10, 11, 12, 13, 32})"

definition trimStart :: "string \<Rightarrow> string" where
  "trimStart s = dropWhile isWhiteSpace s"

definition trim :: "string \<Rightarrow> string" where
  "trim s = rev (dropWhile isWhiteSpace (rev (dropWhile isWhiteSpace s)))"

definition lowerChar :: "char \<Rightarrow> char" where
  "lowerChar c = (let n = (of_char c :: nat) in if 65 \<le> n \<and> n \<le> 90 then char_of (n + 32) else c)"

definition toLowerCase :: "string \<Rightarrow> string" where
  "toLowerCase s = map lowerChar s"

fun startsWith :: "string \<Rightarrow> string \<Rightarrow> bool" where
  "startsWith s [] = True"
| "startsWith [] (c # t) = False"
| "startsWith (d # s) (c # t) = (d = c \<and> startsWith s t)"

text \<open>\<open>s.includes(t)\<close>: \<open>t\<close> occurs in \<open>s\<close> as a contiguous substring.\<close>

fun includesStr :: "string \<Rightarrow> string \<Rightarrow> bool" where
  "includesStr [] t = (t = [])"
| "includesStr (d # s) t = (startsWith (d # s) t \<or> includesStr s t)"

text \<open>\<open>a < b\<close> on two strings: lexicographic on code units.\<close>

fun strLess :: "string \<Rightarrow> string \<Rightarrow> bool" where
  "strLess [] [] = False"
| "strLess [] (c # t) = True"
| "strLess (d # s) [] = False"
| "strLess (d # s) (c # t) =
     ((of_char d :: nat) < of_char c \<or> (d = c \<and> strLess s t))"

subsection \<open>parseInt and parseFloat\<close>

definition isDigit :: "char \<Rightarrow> bool" where
  "isDigit c = (let n = (of_char c :: nat) in 48 \<le> n \<and> n \<le> 57)"

definition digitVal :: "char \<Rightarrow> nat" where
  "digitVal c = of_char c - 48"

definition isHexDigit :: "char \<Rightarrow> bool" where
  "isHexDigit c = (let n = (of_char c :: nat) in
     (48 \<le> n \<and> n \<le> 57) \<or> (65 \<le> n \<and> n \<le> 70) \<or> (97 \<le> n \<and> n \<le> 102))"

definition hexVal :: "char \<Rightarrow> nat" where
  "hexVal c = (let n = (of_char c :: nat) in
     if n \<le> 57 then n - 48 else if n \<le> 70 then n - 55 else n - 87)"

definition digitsValue :: "int \<Rightarrow> (char \<Rightarrow> nat) \<Rightarrow> string \<Rightarrow> int" where
  "digitsValue radix val ds = foldl (\<lambda>acc d. acc * radix + int (val d)) 0 ds"

text \<open>A leading sign: \<open>(negative, rest)\<close>.\<close>

fun stripSign :: "string \<Rightarrow> bool \<times> string" where
  "stripSign [] = (False, [])"
| "stripSign (c # s) =
     (if c = CHR ''-'' then (True, s) else if c = CHR ''+'' then (False, s) else (False, c # s))"

text \<open>
  What \<open>parseInt\<close> returns when it is not NaN: a double that holds an integer, or an
  infinity.
\<close>

datatype xint = Finite int | PlusInfinity | MinusInfinity

text \<open>The number of binary digits of a positive integer.\<close>

function bitLength :: "int \<Rightarrow> nat" where
  "bitLength n = (if n \<le> 0 then 0 else Suc (bitLength (n div 2)))"
  by pat_completeness auto
termination
  by (relation "measure nat") auto

text \<open>
  The double nearest to a non-negative integer: numbers below \<open>2^53\<close> are doubles
  themselves, a larger one is rounded to 53 binary digits, a tie going to the even
  neighbour. A result of \<open>2^1024\<close> or more is beyond the largest double.
\<close>

definition roundMagnitude :: "int \<Rightarrow> int" where
  "roundMagnitude n =
     (if n < 2 ^ 53 then n
      else
        (let e = bitLength n - 53;
             q = n div 2 ^ e;
             r = n mod 2 ^ e;
             h = 2 ^ (e - 1);
             q' = (if h < r \<or> (r = h \<and> odd q) then q + 1 else q)
         in q' * 2 ^ e))"

definition toDouble :: "int \<Rightarrow> xint" where
  "toDouble v =
     (let r = roundMagnitude \<bar>v\<bar>
      in if 2 ^ 1024 \<le> r then (if v < 0 then MinusInfinity else PlusInfinity)
         else Finite (if v < 0 then - r else r))"

text \<open>
  \<open>parseInt(s)\<close> with no radix argument: leading white space is skipped, a sign is read,
  a prefix \<open>0x\<close> or \<open>0X\<close> selects radix 16, and the longest run of digits is the value,
  rounded to the nearest double, which is an infinity for a decimal numeral of 310 digits;
  no digit at all gives NaN, which is \<open>None\<close> here. A parameter that is absent reaches
  \<open>parseInt\<close> as \<open>undefined\<close>, whose string form has no digit.
\<close>

definition parseInt :: "string \<Rightarrow> xint option" where
  "parseInt s =
     (let (neg, t) = stripSign (trimStart s);
          hex = (startsWith t ''0x'' \<or> startsWith t ''0X'');
          u = (if hex then drop 2 t else t);
          z = (if hex then takeWhile isHexDigit u else takeWhile isDigit u);
          v = (if hex then digitsValue 16 hexVal z else digitsValue 10 digitVal z)
      in if z = [] then None else Some (toDouble (if neg then - v else v)))"

definition parseIntParam :: "string option \<Rightarrow> xint option" where
  "parseIntParam p = (case p of None \<Rightarrow> None | Some s \<Rightarrow> parseInt s)"

text \<open>\<open>parseInt(x) || d\<close>: NaN and 0 are falsy and give the default.\<close>

definition orDefault :: "xint option \<Rightarrow> int \<Rightarrow> xint" where
  "orDefault v d =
     (case v of
        None \<Rightarrow> Finite d
      | Some (Finite n) \<Rightarrow> if n = 0 then Finite d else Finite n
      | Some PlusInfinity \<Rightarrow> PlusInfinity
      | Some MinusInfinity \<Rightarrow> MinusInfinity)"

text \<open>
  The arithmetic of the pagination on these numbers. \<open>page - 1\<close> and a product of two
  finite numbers are kept exact; the code rounds them to doubles, which changes them only
  beyond \<open>2^53\<close>, where \<open>slice\<close> clamps the index to the array in either case. Zero times
  an infinity is NaN, which is \<open>None\<close>.
\<close>

fun minusOne :: "xint \<Rightarrow> xint" where
  "minusOne (Finite p) = Finite (p - 1)"
| "minusOne PlusInfinity = PlusInfinity"
| "minusOne MinusInfinity = MinusInfinity"

fun signOf :: "xint \<Rightarrow> int" where
  "signOf (Finite a) = sgn a"
| "signOf PlusInfinity = 1"
| "signOf MinusInfinity = - 1"

fun multiply :: "xint \<Rightarrow> xint \<Rightarrow> xint option" where
  "multiply (Finite a) (Finite b) = Some (Finite (a * b))"
| "multiply a b =
     (if signOf a * signOf b = 0 then None
      else if 0 < signOf a * signOf b then Some PlusInfinity
      else Some MinusInfinity)"

text \<open>\<open>page < n\<close> and \<open>page > n\<close> for an integer \<open>n\<close>.\<close>

fun lessInt :: "xint \<Rightarrow> int \<Rightarrow> bool" where
  "lessInt (Finite a) n = (a < n)"
| "lessInt PlusInfinity n = False"
| "lessInt MinusInfinity n = True"

fun greaterInt :: "xint \<Rightarrow> int \<Rightarrow> bool" where
  "greaterInt (Finite a) n = (n < a)"
| "greaterInt PlusInfinity n = True"
| "greaterInt MinusInfinity n = False"

text \<open>
  \<open>Math.ceil(n / limit)\<close> for the length \<open>n\<close> of an array and a limit that is not 0: the
  ceiling of the exact quotient, which the rounded quotient of the code has as well for
  every length below \<open>2^53\<close>, and 0 when the limit is an infinity.
\<close>

fun ceilQuotient :: "nat \<Rightarrow> xint \<Rightarrow> int" where
  "ceilQuotient n (Finite l) = \<lceil>rat_of_nat n / rat_of_int l\<rceil>"
| "ceilQuotient n PlusInfinity = 0"
| "ceilQuotient n MinusInfinity = 0"

text \<open>The exponent part \<open>e\<close>, sign, digits; it counts only when a digit follows.\<close>

definition exponentPart :: "string \<Rightarrow> int" where
  "exponentPart r =
     (case r of
        [] \<Rightarrow> 0
      | c # r' \<Rightarrow>
          if c = CHR ''e'' \<or> c = CHR ''E'' then
            (let (neg, ds) = stripSign r'; z = takeWhile isDigit ds
             in if z = [] then 0
                else if neg then - digitsValue 10 digitVal z
                else digitsValue 10 digitVal z)
          else 0)"

definition scale10 :: "rat \<Rightarrow> int \<Rightarrow> rat" where
  "scale10 m e = (if e < 0 then m / 10 ^ nat (- e) else m * 10 ^ nat e)"

text \<open>
  \<open>parseFloat(s)\<close>: leading white space is skipped and the longest prefix that is a
  decimal literal (sign, \<open>Infinity\<close>, or digits with an optional fraction and exponent)
  is the value; if there is none the result is NaN.
\<close>

definition parseFloat :: "string \<Rightarrow> jsnum" where
  "parseFloat s =
     (let (neg, u) = stripSign (trimStart s)
      in if startsWith u ''Infinity'' then (if neg then NegInf else PosInf)
         else
           (let ip = takeWhile isDigit u;
                r1 = dropWhile isDigit u;
                hasDot = (r1 \<noteq> [] \<and> hd r1 = CHR ''.'');
                fp = (if hasDot then takeWhile isDigit (tl r1) else []);
                r2 = (if hasDot then dropWhile isDigit (tl r1) else r1)
            in if ip = [] \<and> fp = [] then NaN
               else
                 (let mant = rat_of_int (digitsValue 10 digitVal (ip @ fp)) / 10 ^ length fp;
                      v = scale10 mant (exponentPart r2)
                  in Fin (if neg then - v else v))))"

text \<open>\<open>x >= m\<close> and \<open>x <= m\<close> for a finite \<open>x\<close>; every comparison with NaN is false.\<close>

fun geNum :: "rat \<Rightarrow> jsnum \<Rightarrow> bool" where
  "geNum x NaN = False"
| "geNum x (Fin m) = (m \<le> x)"
| "geNum x PosInf = False"
| "geNum x NegInf = True"

fun leNum :: "rat \<Rightarrow> jsnum \<Rightarrow> bool" where
  "leNum x NaN = False"
| "leNum x (Fin m) = (x \<le> m)"
| "leNum x PosInf = True"
| "leNum x NegInf = False"

text \<open>
  \<open>array.slice(start, end)\<close>: NaN counts as 0, a negative index counts from the end of
  the array, both indices are clamped to the array, and an empty range gives the empty
  array.
\<close>

definition clampIndex :: "int \<Rightarrow> xint option \<Rightarrow> int" where
  "clampIndex len i =
     (case i of
        None \<Rightarrow> 0
      | Some (Finite n) \<Rightarrow> if n < 0 then max (len + n) 0 else min n len
      | Some PlusInfinity \<Rightarrow> len
      | Some MinusInfinity \<Rightarrow> 0)"

definition slice :: "'a list \<Rightarrow> xint option \<Rightarrow> xint option \<Rightarrow> 'a list" where
  "slice xs startIndex endIndex =
     (let len = int (length xs);
          k = clampIndex len startIndex;
          final = clampIndex len endIndex
      in take (nat (final - k)) (drop (nat k) xs))"

text \<open>
  \<open>array.sort(cmp)\<close> is stable; for a comparator that is a total preorder its result
  is the one that stable insertion gives. An element goes before the first element it does
  not compare greater than.
\<close>

fun insertBy :: "('a \<Rightarrow> 'a \<Rightarrow> int) \<Rightarrow> 'a \<Rightarrow> 'a list \<Rightarrow> 'a list" where
  "insertBy cmp x [] = [x]"
| "insertBy cmp x (y # ys) = (if cmp x y \<le> 0 then x # y # ys else y # insertBy cmp x ys)"

fun sortBy :: "('a \<Rightarrow> 'a \<Rightarrow> int) \<Rightarrow> 'a list \<Rightarrow> 'a list" where
  "sortBy cmp [] = []"
| "sortBy cmp (x # xs) = insertBy cmp x (sortBy cmp xs)"

subsection \<open>Request bodies\<close>

text \<open>
  A parsed JSON value. A request body is the JSON object the body parser produced, read
  through its fields; a field that is missing reads as \<open>undefined\<close>, which is \<open>None\<close>.
\<close>

datatype json = JNull | JBool bool | JNum rat | JStr string | JArr "json list"
  | JObj "(string \<times> json) list"

type_synonym body = "string \<rightharpoonup> json"

definition typeof :: "json option \<Rightarrow> string" where
  "typeof v =
     (case v of
        None \<Rightarrow> ''undefined''
      | Some JNull \<Rightarrow> ''object''
      | Some (JBool b) \<Rightarrow> ''boolean''
      | Some (JNum n) \<Rightarrow> ''number''
      | Some (JStr s) \<Rightarrow> ''string''
      | Some (JArr xs) \<Rightarrow> ''object''
      | Some (JObj kvs) \<Rightarrow> ''object'')"

text \<open>\<open>!v\<close>: undefined, null, false, 0 and the empty string are falsy.\<close>

definition falsy :: "json option \<Rightarrow> bool" where
  "falsy v =
     (case v of
        None \<Rightarrow> True
      | Some JNull \<Rightarrow> True
      | Some (JBool b) \<Rightarrow> \<not> b
      | Some (JNum n) \<Rightarrow> n = 0
      | Some (JStr s) \<Rightarrow> s = []
      | Some (JArr xs) \<Rightarrow> False
      | Some (JObj kvs) \<Rightarrow> False)"

text \<open>The string or number a value holds; read only where the \<open>typeof\<close> test to its
  left in the same condition has passed.\<close>

definition strOf :: "json option \<Rightarrow> string" where
  "strOf v = (case v of Some (JStr s) \<Rightarrow> s | _ \<Rightarrow> [])"

definition numOf :: "json option \<Rightarrow> rat" where
  "numOf v = (case v of Some (JNum n) \<Rightarrow> n | _ \<Rightarrow> 0)"

text \<open>\<open>errors.join(sep)\<close>.\<close>

fun joinWith :: "string \<Rightarrow> string list \<Rightarrow> string" where
  "joinWith sep [] = []"
| "joinWith sep [x] = x"
| "joinWith sep (x # y # ys) = x @ sep @ joinWith sep (y # ys)"

text \<open>\<open>array.findIndex(pred)\<close>; the result \<open>-1\<close> is \<open>None\<close>.\<close>

fun findIndex :: "('a \<Rightarrow> bool) \<Rightarrow> 'a list \<Rightarrow> nat option" where
  "findIndex pred [] = None"
| "findIndex pred (x # xs) =
     (if pred x then Some 0 else map_option Suc (findIndex pred xs))"

section \<open>Custom error classes\<close>

text \<open>
  The three error classes of server.js, and the TypeError the engine raises when a
  method is called on a value that has none; that one has no \<open>statusCode\<close>. The engine's
  message text is stood for by the name of the variable.
\<close>

datatype error =
    NotFoundError string
  | ValidationError string
  | AuthenticationError string
  | TypeError string

fun statusCode :: "error \<Rightarrow> nat option" where
  "statusCode (NotFoundError m) = Some 404"
| "statusCode (ValidationError m) = Some 400"
| "statusCode (AuthenticationError m) = Some 401"
| "statusCode (TypeError v) = None"

fun message :: "error \<Rightarrow> string" where
  "message (NotFoundError m) = m"
| "message (ValidationError m) = m"
| "message (AuthenticationError m) = m"
| "message (TypeError v) = v @ '' is not of the expected type''"

section \<open>Products and the sample data\<close>

text \<open>The two records of the statistics answer come first, so that the field names they
  share with a product and with the page metadata stay with those.\<close>

record categoryStats =
  count' :: nat
  totalValue :: rat

record stats =
  totalProducts :: nat
  inStock :: nat
  outOfStock :: nat
  byCategory :: "(string \<times> categoryStats) list"
  averagePrice :: rat
  totalValue :: rat

record product =
  id' :: string
  name :: string
  description :: string
  price :: rat
  category :: string
  inStock :: bool

definition sampleProducts :: "product list" where
  "sampleProducts =
     [\<lparr>id' = ''1'', name = ''Laptop'', description = ''High-performance laptop with 16GB RAM'',
       price = 1200, category = ''electronics'', inStock = True\<rparr>,
      \<lparr>id' = ''2'', name = ''Smartphone'', description = ''Latest model with 128GB storage'',
       price = 800, category = ''electronics'', inStock = True\<rparr>,
      \<lparr>id' = ''3'', name = ''Coffee Maker'', description = ''Programmable coffee maker with timer'',
       price = 50, category = ''kitchen'', inStock = False\<rparr>,
      \<lparr>id' = ''4'', name = ''Desk Chair'', description = ''Ergonomic office chair with lumbar support'',
       price = 250, category = ''furniture'', inStock = True\<rparr>,
      \<lparr>id' = ''5'', name = ''Headphones'', description = ''Noise-canceling wireless headphones'',
       price = 150, category = ''electronics'', inStock = True\<rparr>]"

section \<open>Helper functions of server.js\<close>

definition paginate :: "'a list \<Rightarrow> xint \<Rightarrow> xint \<Rightarrow> 'a list" where
  "paginate array page lmt = slice array (multiply (minusOne page) lmt) (multiply page lmt)"

definition findProductById :: "product list \<Rightarrow> string \<Rightarrow> product option" where
  "findProductById ps i = find (\<lambda>p. id' p = i) ps"

section \<open>GET /api/products\<close>

text \<open>\<open>if (req.query.x)\<close>: the parameter is present and not the empty string.\<close>

definition truthyParam :: "string option \<Rightarrow> bool" where
  "truthyParam p = (case p of None \<Rightarrow> False | Some s \<Rightarrow> s \<noteq> [])"

definition searchStage :: "query \<Rightarrow> product list \<Rightarrow> product list" where
  "searchStage q ps =
     (if truthyParam (q ''search'') then
        (let searchTerm = toLowerCase (the (q ''search''))
         in filter (\<lambda>p. includesStr (toLowerCase (name p)) searchTerm \<or>
                         includesStr (toLowerCase (description p)) searchTerm) ps)
      else ps)"

definition categoryStage :: "query \<Rightarrow> product list \<Rightarrow> product list" where
  "categoryStage q ps =
     (if truthyParam (q ''category'') then
        filter (\<lambda>p. toLowerCase (category p) = toLowerCase (the (q ''category''))) ps
      else ps)"

definition inStockStage :: "query \<Rightarrow> product list \<Rightarrow> product list" where
  "inStockStage q ps =
     (case q ''inStock'' of
        None \<Rightarrow> ps
      | Some s \<Rightarrow> (let inStockValue = (s = ''true'') in filter (\<lambda>p. inStock p = inStockValue) ps))"

definition minPriceStage :: "query \<Rightarrow> product list \<Rightarrow> product list" where
  "minPriceStage q ps =
     (if truthyParam (q ''minPrice'') then
        (let minPrice = parseFloat (the (q ''minPrice'')) in filter (\<lambda>p. geNum (price p) minPrice) ps)
      else ps)"

definition maxPriceStage :: "query \<Rightarrow> product list \<Rightarrow> product list" where
  "maxPriceStage q ps =
     (if truthyParam (q ''maxPrice'') then
        (let maxPrice = parseFloat (the (q ''maxPrice'')) in filter (\<lambda>p. leNum (price p) maxPrice) ps)
      else ps)"

text \<open>The records left after the search, exact-match and range filters.\<close>

definition filterStages :: "query \<Rightarrow> product list \<Rightarrow> product list" where
  "filterStages q ps =
     maxPriceStage q (minPriceStage q (inStockStage q (categoryStage q (searchStage q ps))))"

text \<open>
  \<open>a[sortField] < b[sortField]\<close> on two products. Both operands come from the same
  field, so they are two strings, two numbers, two booleans (\<open>false < true\<close>), or, for a
  name that is no field of a product, two equal values that are not less than each other.
\<close>

definition fieldLess :: "string \<Rightarrow> product \<Rightarrow> product \<Rightarrow> bool" where
  "fieldLess sortField a b =
     (if sortField = ''id'' then strLess (id' a) (id' b)
      else if sortField = ''name'' then strLess (name a) (name b)
      else if sortField = ''description'' then strLess (description a) (description b)
      else if sortField = ''price'' then price a < price b
      else if sortField = ''category'' then strLess (category a) (category b)
      else if sortField = ''inStock'' then (\<not> inStock a \<and> inStock b)
      else False)"

definition compareProducts :: "string \<Rightarrow> int \<Rightarrow> product \<Rightarrow> product \<Rightarrow> int" where
  "compareProducts sortField sortOrder a b =
     (if fieldLess sortField a b then - 1 * sortOrder
      else if fieldLess sortField b a then 1 * sortOrder
      else 0)"

definition sortStage :: "query \<Rightarrow> product list \<Rightarrow> product list" where
  "sortStage q ps =
     (if truthyParam (q ''sortBy'') then
        (let sortField = the (q ''sortBy'');
             sortOrder = (if q ''order'' = Some ''desc'' then - 1 else 1)
         in sortBy (compareProducts sortField sortOrder) ps)
      else ps)"

record pagination =
  currentPage :: xint
  totalPages :: int
  totalProducts :: nat
  limit :: xint
  hasNextPage :: bool
  hasPrevPage :: bool

record listing =
  data :: "product list"
  pagination :: pagination

text \<open>
  The handler of GET /api/products on the collection \<open>ps\<close>. With string-valued
  parameters and products of the record type nothing in its \<open>try\<close> block throws, so it
  always answers with the page and its metadata.
\<close>

definition getProducts :: "product list \<Rightarrow> query \<Rightarrow> listing" where
  "getProducts ps q =
     (let filteredProducts = sortStage q (filterStages q ps);
          page = orDefault (parseIntParam (q ''page'')) 1;
          lmt = orDefault (parseIntParam (q ''limit'')) 10;
          total = length filteredProducts;
          pages = ceilQuotient total lmt;
          paginatedProducts = paginate filteredProducts page lmt
      in \<lparr>data = paginatedProducts,
          pagination = \<lparr>currentPage = page, totalPages = pages, totalProducts = total,
                         limit = lmt, hasNextPage = lessInt page pages,
                         hasPrevPage = greaterInt page 1\<rparr>\<rparr>)"

section \<open>GET /api/products/stats\<close>

text \<open>
  \<open>stats.byCategory\<close> starts as the object literal \<open>{}\<close>, which inherits the
  properties of \<open>Object.prototype\<close>. Reading it at one of these names gives the
  inherited value, which is truthy, although the object has no entry of its own there.
\<close>

definition inheritedKey :: "string \<Rightarrow> bool" where
  "inheritedKey k =
     (k \<in> set [''constructor'', ''__proto__'', ''toString'', ''toLocaleString'', ''valueOf'',
               ''hasOwnProperty'', ''isPrototypeOf'', ''propertyIsEnumerable'',
               ''__defineGetter__'', ''__defineSetter__'', ''__lookupGetter__'',
               ''__lookupSetter__''])"

definition bump :: "product \<Rightarrow> categoryStats \<Rightarrow> categoryStats" where
  "bump p e = \<lparr>count' = count' e + 1, categoryStats.totalValue = categoryStats.totalValue e + price p\<rparr>"

text \<open>
  One round of the \<open>forEach\<close> loop. The entries are the object's own properties in the
  order of their creation. When the category has an entry, its two fields are updated.
  When it has none and is not an inherited name, the entry \<open>{count: 0, totalValue: 0}\<close>
  is created and updated. When it has none and is an inherited name, the test
  \<open>!stats.byCategory[product.category]\<close> is false, no entry is created, and the two
  updates write to the inherited object: \<open>byCategory\<close> gets no entry for the product.
\<close>

definition tally :: "(string \<times> categoryStats) list \<Rightarrow> product \<Rightarrow> (string \<times> categoryStats) list" where
  "tally entries p =
     (if category p \<in> set (map fst entries) then
        map (\<lambda>(k, e). if k = category p then (k, bump p e) else (k, e)) entries
      else if inheritedKey (category p) then entries
      else entries @ [(category p, bump p \<lparr>count' = 0, categoryStats.totalValue = 0\<rparr>)])"

definition getStats :: "product list \<Rightarrow> stats" where
  "getStats ps =
     (let total = length ps;
          worth = foldl (\<lambda>sum p. sum + price p) 0 ps
      in \<lparr>stats.totalProducts = total,
          stats.inStock = length (filter (\<lambda>p. inStock p) ps),
          outOfStock = length (filter (\<lambda>p. \<not> inStock p) ps),
          byCategory = foldl tally [] ps,
          averagePrice = (if total > 0 then worth / rat_of_nat total else 0),
          stats.totalValue = worth\<rparr>)"

section \<open>Requests, responses and the state of the server\<close>

text \<open>
  A request after routing data is extracted and the body is parsed: its method, the
  non-empty segments of its path, the value of the \<open>x-api-key\<close> header, the query
  parameters and the fields of the body. The environment holds \<open>process.env.API_KEY\<close>,
  the clock reading used by the logger and the identifier the next call of \<open>uuidv4\<close>
  returns. The state is the \<open>products\<close> array and the lines written to the console.
\<close>

datatype verb = GET | POST | PUT | DELETE | OTHER

record request =
  httpMethod :: verb
  urlPath :: "string list"
  apiKeyHeader :: "string option"
  query :: query
  body :: body

record env =
  API_KEY :: "string option"
  timestamp :: string
  uuidv4 :: string

record state =
  products :: "product list"
  console :: "(string \<times> verb \<times> string list) list"

datatype payload =
    Welcome
  | Health string
  | ProductList listing
  | Statistics stats
  | ProductData product
  | ProductMessage string product
  | Failure string

record response =
  status :: nat
  payload :: payload

text \<open>What a stage of the chain does: call \<open>next()\<close>, call \<open>next(err)\<close>, or send a
  response.\<close>

datatype outcome = Next | Fail error | Respond response

type_synonym stage = "env \<Rightarrow> request \<Rightarrow> state \<Rightarrow> outcome \<times> state"

section \<open>Custom middleware\<close>

definition requestLogger :: stage where
  "requestLogger ev req st =
     (Next, st\<lparr>console := console st @ [(timestamp ev, httpMethod req, urlPath req)]\<rparr>)"

text \<open>\<open>!apiKey\<close> holds for a header that is absent and for one that is the empty string.\<close>

definition authenticate :: stage where
  "authenticate ev req st =
     (let apiKey = apiKeyHeader req
      in if apiKey = None \<or> apiKey = Some [] then
           (Fail (AuthenticationError ''API key is required''), st)
         else if apiKey \<noteq> API_KEY ev then
           (Fail (AuthenticationError ''Invalid API key''), st)
         else (Next, st))"

definition validationErrors :: "body \<Rightarrow> string list" where
  "validationErrors b =
     (let name = b ''name''; description = b ''description''; price = b ''price'';
          category = b ''category''; inStock = b ''inStock'';
          errors0 = [];
          errors1 = (if falsy name \<or> typeof name \<noteq> ''string'' \<or> length (trim (strOf name)) = 0
                     then errors0 @ [''Name is required and must be a non-empty string'']
                     else errors0);
          errors2 = (if falsy description \<or> typeof description \<noteq> ''string''
                     then errors1 @ [''Description is required and must be a string'']
                     else errors1);
          errors3 = (if price = None \<or> typeof price \<noteq> ''number'' \<or> numOf price < 0
                     then errors2 @ [''Price is required and must be a non-negative number'']
                     else errors2);
          errors4 = (if falsy category \<or> typeof category \<noteq> ''string''
                        \<or> length (trim (strOf category)) = 0
                     then errors3 @ [''Category is required and must be a non-empty string'']
                     else errors3);
          errors5 = (if inStock \<noteq> None \<and> typeof inStock \<noteq> ''boolean''
                     then errors4 @ [''inStock must be a boolean value'']
                     else errors4)
      in errors5)"

definition validateProduct :: stage where
  "validateProduct ev req st =
     (let errors = validationErrors (body req)
      in if length errors > 0 then (Fail (ValidationError (joinWith '', '' errors)), st)
         else (Next, st))"

section \<open>Route handlers\<close>

definition rootHandler :: stage where
  "rootHandler ev req st = (Respond \<lparr>status = 200, payload = Welcome\<rparr>, st)"

definition healthHandler :: stage where
  "healthHandler ev req st = (Respond \<lparr>status = 200, payload = Health (timestamp ev)\<rparr>, st)"

definition listHandler :: stage where
  "listHandler ev req st =
     (Respond \<lparr>status = 200, payload = ProductList (getProducts (products st) (query req))\<rparr>, st)"

definition statsHandler :: stage where
  "statsHandler ev req st =
     (Respond \<lparr>status = 200, payload = Statistics (getStats (products st))\<rparr>, st)"

definition notFound :: "string \<Rightarrow> error" where
  "notFound i = NotFoundError (''Product with ID '' @ i @ '' not found'')"

definition getHandler :: "string \<Rightarrow> stage" where
  "getHandler i ev req st =
     (case findProductById (products st) i of
        None \<Rightarrow> (Fail (notFound i), st)
      | Some product \<Rightarrow> (Respond \<lparr>status = 200, payload = ProductData product\<rparr>, st))"

text \<open>
  The fields that the create and the update handler take from the body, in the order in
  which the object literal evaluates them: \<open>name.trim()\<close>, \<open>description.trim()\<close>,
  \<open>parseFloat(price)\<close>, \<open>category.trim().toLowerCase()\<close> and \<open>inStock\<close>. Calling
  \<open>trim\<close> on a value that is not a string raises a TypeError, which the handler's
  \<open>catch\<close> passes on. \<open>parseFloat\<close> of a number gives that number. Both handlers are
  registered behind \<open>validateProduct\<close>, so the price they see is a number and \<open>inStock\<close>
  is absent or a boolean; for any other value, which the product record cannot store, the
  model stops with a TypeError as well.
\<close>

definition bodyFields :: "body \<Rightarrow> error + (string \<times> string \<times> rat \<times> string \<times> bool option)" where
  "bodyFields b =
     (case b ''name'' of
        Some (JStr n) \<Rightarrow>
          (case b ''description'' of
             Some (JStr d) \<Rightarrow>
               (case b ''price'' of
                  Some (JNum pr) \<Rightarrow>
                    (case b ''category'' of
                       Some (JStr c) \<Rightarrow>
                         (case b ''inStock'' of
                            None \<Rightarrow> Inr (trim n, trim d, pr, toLowerCase (trim c), None)
                          | Some (JBool s) \<Rightarrow> Inr (trim n, trim d, pr, toLowerCase (trim c), Some s)
                          | _ \<Rightarrow> Inl (TypeError ''inStock''))
                     | _ \<Rightarrow> Inl (TypeError ''category''))
                | _ \<Rightarrow> Inl (TypeError ''price''))
           | _ \<Rightarrow> Inl (TypeError ''description''))
      | _ \<Rightarrow> Inl (TypeError ''name''))"

definition createHandler :: stage where
  "createHandler ev req st =
     (case bodyFields (body req) of
        Inl err \<Rightarrow> (Fail err, st)
      | Inr (n, d, pr, c, s) \<Rightarrow>
          (let newProduct = \<lparr>id' = uuidv4 ev, name = n, description = d, price = pr,
                             category = c, inStock = (case s of None \<Rightarrow> True | Some v \<Rightarrow> v)\<rparr>
           in (Respond \<lparr>status = 201,
                        payload = ProductMessage ''Product created successfully'' newProduct\<rparr>,
               st\<lparr>products := products st @ [newProduct]\<rparr>)))"

definition updateHandler :: "string \<Rightarrow> stage" where
  "updateHandler i ev req st =
     (case findIndex (\<lambda>p. id' p = i) (products st) of
        None \<Rightarrow> (Fail (notFound i), st)
      | Some productIndex \<Rightarrow>
          (case bodyFields (body req) of
             Inl err \<Rightarrow> (Fail err, st)
           | Inr (n, d, pr, c, s) \<Rightarrow>
               (let old = products st ! productIndex;
                    updated = old\<lparr>name := n, description := d, price := pr, category := c,
                                  inStock := (case s of None \<Rightarrow> inStock old | Some v \<Rightarrow> v)\<rparr>
                in (Respond \<lparr>status = 200,
                             payload = ProductMessage ''Product updated successfully'' updated\<rparr>,
                    st\<lparr>products := (products st)[productIndex := updated]\<rparr>))))"

definition deleteHandler :: "string \<Rightarrow> stage" where
  "deleteHandler i ev req st =
     (case findIndex (\<lambda>p. id' p = i) (products st) of
        None \<Rightarrow> (Fail (notFound i), st)
      | Some productIndex \<Rightarrow>
          (let deletedProduct = products st ! productIndex
           in (Respond \<lparr>status = 200,
                        payload = ProductMessage ''Product deleted successfully'' deletedProduct\<rparr>,
               st\<lparr>products := take productIndex (products st) @ drop (Suc productIndex) (products st)\<rparr>)))"

section \<open>The route table and the dispatch of a request\<close>

datatype route =
    Root
  | HealthCheck
  | ListProducts
  | ProductStats
  | GetProduct string
  | CreateProduct
  | UpdateProduct string
  | DeleteProduct string
  | NoRoute

text \<open>The first route, in the order of registration, that the method and path match.\<close>

definition isProductPath :: "string list \<Rightarrow> bool" where
  "isProductPath p = (length p = 3 \<and> take 2 p = [''api'', ''products''])"

definition matchRoute :: "verb \<Rightarrow> string list \<Rightarrow> route" where
  "matchRoute m p =
     (if m = GET \<and> p = [] then Root
      else if m = GET \<and> p = [''api'', ''health''] then HealthCheck
      else if m = GET \<and> p = [''api'', ''products''] then ListProducts
      else if m = GET \<and> p = [''api'', ''products'', ''stats''] then ProductStats
      else if m = GET \<and> isProductPath p then GetProduct (p ! 2)
      else if m = POST \<and> p = [''api'', ''products''] then CreateProduct
      else if m = PUT \<and> isProductPath p then UpdateProduct (p ! 2)
      else if m = DELETE \<and> isProductPath p then DeleteProduct (p ! 2)
      else NoRoute)"

datatype stageName = Logger | Authenticator | Validator | Handler

text \<open>The functions each route was registered with, each under the name of its role.\<close>

fun routeStages :: "route \<Rightarrow> (stageName \<times> stage) list" where
  "routeStages Root = [(Handler, rootHandler)]"
| "routeStages HealthCheck = [(Handler, healthHandler)]"
| "routeStages ListProducts = [(Handler, listHandler)]"
| "routeStages ProductStats = [(Handler, statsHandler)]"
| "routeStages (GetProduct i) = [(Handler, getHandler i)]"
| "routeStages CreateProduct =
     [(Authenticator, authenticate), (Validator, validateProduct), (Handler, createHandler)]"
| "routeStages (UpdateProduct i) =
     [(Authenticator, authenticate), (Validator, validateProduct), (Handler, updateHandler i)]"
| "routeStages (DeleteProduct i) = [(Authenticator, authenticate), (Handler, deleteHandler i)]"
| "routeStages NoRoute = []"

text \<open>
  Express runs the functions in order. \<open>next()\<close> passes control to the following one;
  \<open>next(err)\<close> skips every remaining one and goes to the error handler; a response ends
  the run. A request that no route answers reaches the catch-all registered after the
  routes, which raises \<open>Route not found\<close>. The first component of the result lists the
  stages that ran.
\<close>

fun runStages :: "(stageName \<times> stage) list \<Rightarrow> env \<Rightarrow> request \<Rightarrow> state
    \<Rightarrow> stageName list \<times> (error + response) \<times> state" where
  "runStages [] ev req st = ([], Inl (NotFoundError ''Route not found''), st)"
| "runStages ((n, f) # rest) ev req st =
     (case f ev req st of
        (Next, st') \<Rightarrow>
          (case runStages rest ev req st' of (tr, res, st'') \<Rightarrow> (n # tr, res, st''))
      | (Fail err, st') \<Rightarrow> ([n], Inl err, st')
      | (Respond r, st') \<Rightarrow> ([n], Inr r, st'))"

text \<open>The global error handler: \<open>err.statusCode || 500\<close> and
  \<open>err.message || 'Internal server error'\<close>. The stack trace it adds in development
  mode is left out.\<close>

definition errorHandler :: "error \<Rightarrow> response" where
  "errorHandler err =
     \<lparr>status = (case statusCode err of None \<Rightarrow> 500 | Some c \<Rightarrow> c),
      payload = Failure (if message err = [] then ''Internal server error'' else message err)\<rparr>"

definition stagesOf :: "request \<Rightarrow> (stageName \<times> stage) list" where
  "stagesOf req = (Logger, requestLogger) # routeStages (matchRoute (httpMethod req) (urlPath req))"

definition handleRequest :: "env \<Rightarrow> request \<Rightarrow> state \<Rightarrow> stageName list \<times> response \<times> state" where
  "handleRequest ev req st =
     (case runStages (stagesOf req) ev req st of
        (tr, Inl err, st') \<Rightarrow> (tr, errorHandler err, st')
      | (tr, Inr r, st') \<Rightarrow> (tr, r, st'))"

section \<open>Notions used to state the properties\<close>

text \<open>The decimal numeral of a natural number, as a client writes a page number or a
  page size into the query string.\<close>

fun decString :: "nat \<Rightarrow> string" where
  "decString n =
     (if n < 10 then [char_of (48 + n)] else decString (n div 10) @ [char_of (48 + n mod 10)])"

text \<open>The query \<open>q\<close> with \<open>limit\<close> set to \<open>l\<close> and \<open>page\<close> set to \<open>p\<close>.\<close>

definition pageQuery :: "query \<Rightarrow> nat \<Rightarrow> nat \<Rightarrow> query" where
  "pageQuery q l p = q(''limit'' \<mapsto> decString l, ''page'' \<mapsto> decString p)"

text \<open>
  The validation rules in the words of the specification, which has one rule for a
  required string: it is violated when the field is missing, of the wrong type, or empty
  after trimming. Name, description and category are the required strings; the required
  non-negative number (price) is violated when it is missing, of the wrong type or
  negative; the optional boolean (inStock) only when it is present and not a boolean.
\<close>

datatype field = NameField | DescriptionField | PriceField | CategoryField | InStockField

definition specificationOrder :: "field list" where
  "specificationOrder = [NameField, DescriptionField, PriceField, CategoryField, InStockField]"

fun specViolated :: "field \<Rightarrow> body \<Rightarrow> bool" where
  "specViolated NameField b = (case b ''name'' of Some (JStr s) \<Rightarrow> trim s = [] | _ \<Rightarrow> True)"
| "specViolated DescriptionField b =
     (case b ''description'' of Some (JStr s) \<Rightarrow> trim s = [] | _ \<Rightarrow> True)"
| "specViolated PriceField b = (case b ''price'' of Some (JNum n) \<Rightarrow> n < 0 | _ \<Rightarrow> True)"
| "specViolated CategoryField b =
     (case b ''category'' of Some (JStr s) \<Rightarrow> trim s = [] | _ \<Rightarrow> True)"
| "specViolated InStockField b =
     (case b ''inStock'' of None \<Rightarrow> False | Some (JBool v) \<Rightarrow> False | _ \<Rightarrow> True)"

text \<open>
  The rules as the README of the repository states them, which differ in one field: the
  description is a required string, violated when it is missing, of the wrong type or
  empty, and a description of white space alone is not a violation.
\<close>

fun violated :: "field \<Rightarrow> body \<Rightarrow> bool" where
  "violated NameField b = (case b ''name'' of Some (JStr s) \<Rightarrow> trim s = [] | _ \<Rightarrow> True)"
| "violated DescriptionField b = (case b ''description'' of Some (JStr s) \<Rightarrow> s = [] | _ \<Rightarrow> True)"
| "violated PriceField b = (case b ''price'' of Some (JNum n) \<Rightarrow> n < 0 | _ \<Rightarrow> True)"
| "violated CategoryField b = (case b ''category'' of Some (JStr s) \<Rightarrow> trim s = [] | _ \<Rightarrow> True)"
| "violated InStockField b =
     (case b ''inStock'' of None \<Rightarrow> False | Some (JBool v) \<Rightarrow> False | _ \<Rightarrow> True)"

fun fieldMessage :: "field \<Rightarrow> string" where
  "fieldMessage NameField = ''Name is required and must be a non-empty string''"
| "fieldMessage DescriptionField = ''Description is required and must be a string''"
| "fieldMessage PriceField = ''Price is required and must be a non-negative number''"
| "fieldMessage CategoryField = ''Category is required and must be a non-empty string''"
| "fieldMessage InStockField = ''inStock must be a boolean value''"



text \<open>The pages \<open>1, 2, ..., totalPages\<close> of a query with page size \<open>l\<close>, concatenated
  in page order.\<close>

definition allPages :: "product list \<Rightarrow> query \<Rightarrow> nat \<Rightarrow> product list" where
  "allPages ps q l =
     concat (map (\<lambda>p. data (getProducts ps (pageQuery q l p)))
       [1..<Suc (nat (totalPages (pagination (getProducts ps (pageQuery q l 1)))))])"

text \<open>
  The order of the stages in the words of the specification: the logger, then the
  authenticator on the mutating routes (create, update, delete), then the validator on
  the create and update routes, then the handler of the route.
\<close>

fun mutating :: "route \<Rightarrow> bool" where
  "mutating CreateProduct = True"
| "mutating (UpdateProduct i) = True"
| "mutating (DeleteProduct i) = True"
| "mutating r = False"

fun validating :: "route \<Rightarrow> bool" where
  "validating CreateProduct = True"
| "validating (UpdateProduct i) = True"
| "validating r = False"


text \<open>A server as it starts, and an environment with the values of the README.\<close>

definition initialState :: state where
  "initialState = \<lparr>products = sampleProducts, console = []\<rparr>"

definition exampleEnv :: env where
  "exampleEnv = \<lparr>API_KEY = Some ''your_secret_api_key_here'',
     timestamp = ''2025-10-04T10:30:00.000Z'',
     uuidv4 = ''a1b2c3d4-e5f6-7890-abcd-ef1234567890''\<rparr>"

definition request :: "verb \<Rightarrow> string list \<Rightarrow> string option \<Rightarrow> query \<Rightarrow> body \<Rightarrow> request" where
  "request m p k q b = \<lparr>httpMethod = m, urlPath = p, apiKeyHeader = k, query = q, body = b\<rparr>"

section \<open>Properties\<close>

subsection \<open>Parsing, slicing and sorting\<close>

declare decString.simps [simp del]

lemma isDigit_char_of: "k < 10 \<Longrightarrow> isDigit (char_of (48 + (k::nat)))"
  by (simp add: isDigit_def Let_def)

lemma digitVal_char_of: "k < 10 \<Longrightarrow> digitVal (char_of (48 + k)) = k"
  by (simp add: digitVal_def)

lemma decString_digits: "\<forall>c \<in> set (decString n). isDigit c"
proof (induction n rule: decString.induct)
  case (1 n)
  show ?case
  proof (cases "n < 10")
    case True
    then show ?thesis by (subst decString.simps) (simp add: isDigit_char_of)
  next
    case False
    then show ?thesis using 1 by (subst decString.simps) (simp add: isDigit_char_of)
  qed
qed

lemma decString_nonempty: "decString n \<noteq> []"
  by (subst decString.simps) simp

lemma digitsValue_snoc: "digitsValue r v (ds @ [d]) = digitsValue r v ds * r + int (v d)"
  by (simp add: digitsValue_def)

lemma digitsValue_decString: "digitsValue 10 digitVal (decString n) = int n"
proof (induction n rule: decString.induct)
  case (1 n)
  show ?case
  proof (cases "n < 10")
    case True
    then show ?thesis by (subst decString.simps) (simp add: digitsValue_def digitVal_char_of)
  next
    case False
    then have "digitsValue 10 digitVal (decString (n div 10)) = int (n div 10)" using 1 by simp
    moreover have "int (n div 10) * 10 + int (n mod 10) = int n"
      by (metis mult.commute of_nat_add of_nat_mult of_nat_numeral div_mult_mod_eq mult.commute)
    ultimately show ?thesis using False
      by (subst decString.simps) (simp add: digitsValue_snoc digitVal_char_of)
  qed
qed

lemma digit_not_space: "isDigit c \<Longrightarrow> \<not> isWhiteSpace c"
  by (auto simp: isDigit_def isWhiteSpace_def Let_def)

lemma digit_not_sign: "isDigit c \<Longrightarrow> c \<noteq> CHR ''-'' \<and> c \<noteq> CHR ''+'' \<and> c \<noteq> CHR ''x'' \<and> c \<noteq> CHR ''X''"
  by (auto simp: isDigit_def Let_def)

lemma parseInt_digits:
  assumes "ds \<noteq> []" and "\<forall>c \<in> set ds. isDigit c"
  shows "parseInt ds = Some (toDouble (digitsValue 10 digitVal ds))"
proof -
  obtain c cs where ds: "ds = c # cs" using assms(1) by (cases ds) auto
  have c: "isDigit c" using assms(2) ds by simp
  have t: "trimStart ds = ds" using c ds by (simp add: trimStart_def digit_not_space)
  have s: "stripSign ds = (False, ds)" using c ds digit_not_sign by simp
  have nx: "\<not> startsWith ds ''0x''" "\<not> startsWith ds ''0X''"
    using assms(2) ds digit_not_sign by (cases cs; auto)+
  have tw: "takeWhile isDigit ds = ds" using assms(2) by (simp add: takeWhile_eq_all_conv)
  show ?thesis using assms(1) by (simp add: parseInt_def t s nx tw)
qed

lemma parseInt_decString: "parseInt (decString n) = Some (toDouble (int n))"
  by (simp add: parseInt_digits decString_nonempty decString_digits digitsValue_decString)

text \<open>Rounding to a double.\<close>

declare bitLength.simps [simp del]

lemma bitLength_bounds: "0 < n \<Longrightarrow> 2 ^ (bitLength n - 1) \<le> n \<and> n < 2 ^ bitLength n"
proof (induction n rule: bitLength.induct)
  case (1 n)
  show ?case
  proof (cases "n div 2 = 0")
    case True
    with "1.prems" have "n = 1" by presburger
    then show ?thesis by (simp add: bitLength.simps [of 1] bitLength.simps [of 0])
  next
    case False
    with "1.prems" have pos: "0 < n div 2" by simp
    from "1.IH" "1.prems" pos
    have ih: "2 ^ (bitLength (n div 2) - 1) \<le> n div 2 \<and> n div 2 < 2 ^ bitLength (n div 2)"
      by simp
    have b: "bitLength n = Suc (bitLength (n div 2))" using "1.prems" by (simp add: bitLength.simps [of n])
    have nz: "0 < bitLength (n div 2)" using pos by (simp add: bitLength.simps [of "n div 2"])
    then obtain k where k: "bitLength (n div 2) = Suc k" by (cases "bitLength (n div 2)") auto
    from ih have "2 * 2 ^ k \<le> 2 * (n div 2)" by (simp add: k)
    then have lower: "2 ^ (bitLength n - 1) \<le> n" by (simp add: b k)
    from ih have "n div 2 + 1 \<le> 2 ^ bitLength (n div 2)" by simp
    then have "2 * (n div 2) + 2 \<le> 2 * 2 ^ bitLength (n div 2)" by simp
    then have upper: "n < 2 ^ bitLength n" by (simp add: b)
    from lower upper show ?thesis by simp
  qed
qed

lemma roundMagnitude_small: "n < 2 ^ 53 \<Longrightarrow> roundMagnitude n = n"
  by (simp add: roundMagnitude_def)

lemma roundMagnitude_lower:
  assumes "2 ^ 53 \<le> n"
  shows "2 ^ (bitLength n - 1) \<le> roundMagnitude n"
proof -
  let ?b = "bitLength n"
  let ?e = "?b - 53"
  let ?q = "n div 2 ^ ?e"
  from assms have pos: "0 < n" by (simp add: order.strict_trans2 [of 0 "2 ^ 53"])
  note bd = bitLength_bounds [OF pos]
  have "(2::int) ^ 53 < 2 ^ ?b" using assms bd by simp
  then have b: "53 < ?b" by (simp only: power_strict_increasing_iff) 
  then have split: "?b - 1 = 52 + ?e" by simp
  have "(2::int) ^ (?b - 1) = 2 ^ 52 * 2 ^ ?e" by (simp only: split power_add)
  with bd have "2 ^ 52 * 2 ^ ?e \<le> n" by simp
  then have "(2 ^ 52 * 2 ^ ?e) div 2 ^ ?e \<le> n div 2 ^ ?e" by (rule zdiv_mono1) simp
  then have q: "2 ^ 52 \<le> ?q" by simp
  have "?q * 2 ^ ?e \<le> roundMagnitude n"
    using assms by (simp add: roundMagnitude_def Let_def)
  moreover have "2 ^ 52 * 2 ^ ?e \<le> ?q * (2::int) ^ ?e" using q by (intro mult_right_mono) simp_all
  ultimately show ?thesis by (simp only: split power_add)
qed

lemma roundMagnitude_pos: "0 < n \<Longrightarrow> 0 < roundMagnitude n"
proof (cases "n < 2 ^ 53")
  case True
  assume "0 < n"
  with True show ?thesis by (simp add: roundMagnitude_small)
next
  case False
  then have "2 ^ (bitLength n - 1) \<le> roundMagnitude n" by (intro roundMagnitude_lower) simp
  moreover have "(0::int) < 2 ^ (bitLength n - 1)" by simp
  ultimately show ?thesis by linarith
qed

lemma toDouble_small: "0 \<le> n \<Longrightarrow> n < 2 ^ 53 \<Longrightarrow> toDouble n = Finite n"
proof -
  assume a: "0 \<le> n" "n < 2 ^ 53"
  have "(2::int) ^ 53 \<le> 2 ^ 1024" by (rule power_increasing) simp_all
  with a have "\<not> 2 ^ 1024 \<le> n" by linarith
  with a show ?thesis by (simp add: toDouble_def roundMagnitude_small Let_def)
qed

lemma toDouble_finite:
  "0 \<le> n \<Longrightarrow> toDouble n \<noteq> PlusInfinity \<Longrightarrow> toDouble n = Finite (roundMagnitude n)"
  by (simp add: toDouble_def Let_def split: if_splits)

text \<open>Slicing and sorting.\<close>

lemma slice_nonneg:
  "0 \<le> a \<Longrightarrow> a \<le> b \<Longrightarrow>
   slice xs (Some (Finite a)) (Some (Finite b)) = take (nat b - nat a) (drop (nat a) xs)"
  by (auto simp: slice_def clampIndex_def Let_def min_def nat_diff_distrib)

lemma length_insertBy: "length (insertBy cmp x xs) = Suc (length xs)"
  by (induction xs) auto

lemma length_sortBy: "length (sortBy cmp xs) = length xs"
  by (induction xs) (auto simp: length_insertBy)

lemma mset_insertBy: "mset (insertBy cmp x xs) = add_mset x (mset xs)"
  by (induction xs) auto

lemma mset_sortBy: "mset (sortBy cmp xs) = mset xs"
  by (induction xs) (auto simp: mset_insertBy)

lemma concat_pages:
  "concat (map (\<lambda>p. take l (drop (p * l) xs)) [0..<k]) = take (k * l) xs"
proof (induction k)
  case 0
  show ?case by simp
next
  case (Suc k)
  have "Suc k * l = k * l + l" by simp
  then have "take (Suc k * l) xs = take (k * l) xs @ take l (drop (k * l) xs)"
    by (simp only: take_add)
  with Suc show ?case by simp
qed


lemma paginate_pos:
  assumes "1 \<le> p" and "1 \<le> l"
  shows "paginate xs (Finite (int p)) (Finite (int l)) = take l (drop ((p - 1) * l) xs)"
proof -
  have a: "(int p - 1) * int l = int ((p - 1) * l)" using assms(1) by (simp add: of_nat_diff)
  have b: "int p * int l = int (p * l)" by simp
  have c: "(p - 1) * l \<le> p * l" by simp
  have d: "p * l - (p - 1) * l = l" using assms(1) by (simp add: diff_mult_distrib)
  have "paginate xs (Finite (int p)) (Finite (int l)) =
      slice xs (Some (Finite (int ((p - 1) * l)))) (Some (Finite (int (p * l))))"
    by (simp only: paginate_def minusOne.simps multiply.simps a b)
  also have "\<dots> = take l (drop ((p - 1) * l) xs)"
    using c d by (simp add: slice_nonneg del: of_nat_mult)
  finally show ?thesis .
qed

lemma ceiling_pages_cover:
  assumes "0 < l"
  shows "n \<le> nat \<lceil>rat_of_nat n / rat_of_int (int l)\<rceil> * l"
proof -
  let ?c = "\<lceil>rat_of_nat n / rat_of_int (int l)\<rceil>"
  have pos: "0 < rat_of_int (int l)" using assms by simp
  have "rat_of_nat n / rat_of_int (int l) \<le> rat_of_int ?c" by (rule le_of_int_ceiling)
  then have "rat_of_nat n \<le> rat_of_int ?c * rat_of_int (int l)"
    by (simp only: pos_divide_le_eq[OF pos])
  then have "rat_of_int (int n) \<le> rat_of_int (?c * int l)" by simp
  then have le: "int n \<le> ?c * int l" by (simp only: of_int_le_iff)
  have "0 \<le> rat_of_nat n / rat_of_int (int l)" by simp
  then have "0 \<le> ?c" by (metis ceiling_mono ceiling_zero)
  then have "?c * int l = int (nat ?c * l)" by simp
  with le show ?thesis by linarith
qed

lemma ceiling_pages_le:
  assumes "0 < l"
  shows "nat \<lceil>rat_of_nat n / rat_of_int (int l)\<rceil> \<le> n"
proof -
  have "1 \<le> rat_of_int (int l)" using assms by simp
  then have "rat_of_nat n / rat_of_int (int l) \<le> rat_of_nat n"
    by (simp add: divide_le_eq mult_le_cancel_left1)
  then have "\<lceil>rat_of_nat n / rat_of_int (int l)\<rceil> \<le> \<lceil>rat_of_nat n\<rceil>" by (rule ceiling_mono)
  then show ?thesis by simp
qed

lemma filterStages_none:
  assumes "q ''search'' = None" "q ''category'' = None" "q ''inStock'' = None"
    "q ''minPrice'' = None" "q ''maxPrice'' = None"
  shows "filterStages q ps = ps"
  using assms
  by (simp add: filterStages_def searchStage_def categoryStage_def inStockStage_def
      minPriceStage_def maxPriceStage_def truthyParam_def)

lemma pageQuery_other:
  "k \<noteq> ''limit'' \<Longrightarrow> k \<noteq> ''page'' \<Longrightarrow> pageQuery q l p k = q k"
  by (simp add: pageQuery_def)

lemma sortStage_pageQuery: "sortStage (pageQuery q l p) ps = sortStage q ps"
  by (simp add: sortStage_def pageQuery_other)

lemma stages_pageQuery:
  "searchStage (pageQuery q l p) ps = searchStage q ps"
  "categoryStage (pageQuery q l p) ps = categoryStage q ps"
  "inStockStage (pageQuery q l p) ps = inStockStage q ps"
  "minPriceStage (pageQuery q l p) ps = minPriceStage q ps"
  "maxPriceStage (pageQuery q l p) ps = maxPriceStage q ps"
  by (simp_all add: searchStage_def categoryStage_def inStockStage_def
      minPriceStage_def maxPriceStage_def pageQuery_other)

lemma filterStages_pageQuery: "filterStages (pageQuery q l p) ps = filterStages q ps"
  by (simp add: filterStages_def stages_pageQuery)

lemma pageQuery_limit:
  assumes "0 < l" and "toDouble (int l) \<noteq> PlusInfinity"
  shows "orDefault (parseIntParam (pageQuery q l p ''limit'')) 10 = Finite (roundMagnitude (int l))"
proof -
  have "toDouble (int l) = Finite (roundMagnitude (int l))"
    using assms(2) by (intro toDouble_finite) simp_all
  moreover have "roundMagnitude (int l) \<noteq> 0" using roundMagnitude_pos [of "int l"] assms(1) by simp
  ultimately show ?thesis
    by (simp add: pageQuery_def parseIntParam_def parseInt_decString orDefault_def)
qed

lemma pageQuery_page:
  assumes "0 < p" and "p < 2 ^ 53"
  shows "orDefault (parseIntParam (pageQuery q l p ''page'')) 1 = Finite (int p)"
proof -
  have "int p < 2 ^ 53" using assms(2) by (metis of_nat_less_iff of_nat_numeral of_nat_power)
  then have "toDouble (int p) = Finite (int p)" by (intro toDouble_small) simp_all
  then show ?thesis using assms(1)
    by (simp add: pageQuery_def parseIntParam_def parseInt_decString orDefault_def)
qed

lemma data_pageQuery:
  assumes "0 < l" and "toDouble (int l) \<noteq> PlusInfinity" and "0 < p" and "p < 2 ^ 53"
  shows "data (getProducts ps (pageQuery q l p)) =
         take (nat (roundMagnitude (int l)))
           (drop ((p - 1) * nat (roundMagnitude (int l))) (sortStage q (filterStages q ps)))"
proof -
  let ?L = "nat (roundMagnitude (int l))"
  have L: "int ?L = roundMagnitude (int l)" "1 \<le> ?L"
    using roundMagnitude_pos [of "int l"] assms(1) by simp_all
  have p: "1 \<le> p" using assms(3) by simp
  have "paginate (sortStage q (filterStages q ps)) (Finite (int p)) (Finite (int ?L)) =
      take ?L (drop ((p - 1) * ?L) (sortStage q (filterStages q ps)))"
    by (rule paginate_pos [OF p L(2)])
  then have "paginate (sortStage q (filterStages q ps)) (Finite (int p))
      (Finite (roundMagnitude (int l))) =
      take ?L (drop ((p - 1) * ?L) (sortStage q (filterStages q ps)))"
    by (simp only: L(1))
  then show ?thesis
    by (simp add: getProducts_def Let_def pageQuery_limit [OF assms(1,2)]
        pageQuery_page [OF assms(3,4)] sortStage_pageQuery filterStages_pageQuery)
qed

lemma totalPages_pageQuery:
  assumes "0 < l" and "toDouble (int l) \<noteq> PlusInfinity"
  shows "totalPages (pagination (getProducts ps (pageQuery q l p))) =
         \<lceil>rat_of_nat (length (sortStage q (filterStages q ps)))
            / rat_of_int (roundMagnitude (int l))\<rceil>"
  by (simp add: getProducts_def Let_def pageQuery_limit [OF assms] sortStage_pageQuery
      filterStages_pageQuery)

lemma mset_sortStage: "mset (sortStage q ps) = mset ps"
  by (simp add: sortStage_def Let_def mset_sortBy)

text \<open>A page size that overflows to infinity.\<close>

lemma infinite_limit:
  assumes "toDouble (int l) = PlusInfinity"
  shows "totalPages (pagination (getProducts ps (pageQuery q l p))) = 0"
    and "data (getProducts ps (pageQuery q l 1)) = sortStage q (filterStages q ps)"
    and "allPages ps q l = []"
proof -
  have lim: "orDefault (parseIntParam (pageQuery q l p ''limit'')) 10 = PlusInfinity" for p
    using assms by (simp add: pageQuery_def parseIntParam_def parseInt_decString orDefault_def)
  show t: "totalPages (pagination (getProducts ps (pageQuery q l p))) = 0" for p
    by (simp add: getProducts_def Let_def lim)
  have "(1::nat) < 2 ^ 53" by simp
  then have pg: "orDefault (parseIntParam (pageQuery q l 1 ''page'')) 1 = Finite (int 1)"
    by (intro pageQuery_page) simp_all
  show "data (getProducts ps (pageQuery q l 1)) = sortStage q (filterStages q ps)"
    using pg by (simp add: getProducts_def Let_def lim paginate_def slice_def clampIndex_def
        sortStage_pageQuery filterStages_pageQuery)
  show "allPages ps q l = []" by (simp add: allPages_def t)
qed

subsection \<open>Pages partition the sorted collection\<close>

text \<open>
  C5, amended. With no search and no filter parameter set, for a collection that an array
  can hold and a page size \<open>l > 0\<close> that \<open>parseInt\<close> reads as a finite number, the pages
  \<open>1, 2, ..., totalPages\<close>, concatenated in page order, are exactly the sorted sequence
  of the whole collection, which holds every record of the collection once: nothing is
  repeated and nothing is left out.
\<close>

theorem pages_partition:
  assumes "q ''search'' = None" and "q ''category'' = None" and "q ''inStock'' = None"
    and "q ''minPrice'' = None" and "q ''maxPrice'' = None"
    and "0 < l" and "toDouble (int l) \<noteq> PlusInfinity" and "length ps < 2 ^ 32"
  shows "allPages ps q l = sortStage q ps \<and> mset (sortStage q ps) = mset ps"
proof -
  let ?xs = "sortStage q ps"
  let ?L = "nat (roundMagnitude (int l))"
  let ?k = "nat \<lceil>rat_of_nat (length ?xs) / rat_of_int (int ?L)\<rceil>"
  have L: "int ?L = roundMagnitude (int l)" "0 < ?L"
    using roundMagnitude_pos [of "int l"] assms(6) by simp_all
  have f: "filterStages q ps = ps" using assms(1-5) by (rule filterStages_none)
  have k: "nat (totalPages (pagination (getProducts ps (pageQuery q l 1)))) = ?k"
    by (simp only: totalPages_pageQuery [OF assms(6,7)] f L(1))
  have len: "length ?xs = length ps" by (simp add: sortStage_def Let_def length_sortBy)
  have small: "?k < 2 ^ 53"
  proof -
    have "?k \<le> length ps" using ceiling_pages_le [OF L(2), of "length ?xs"] by (simp only: len)
    also have "\<dots> < 2 ^ 32" by (rule assms(8))
    also have "(2::nat) ^ 32 \<le> 2 ^ 53" by (rule power_increasing) simp_all
    finally show ?thesis .
  qed
  have page: "data (getProducts ps (pageQuery q l p)) = take ?L (drop ((p - 1) * ?L) ?xs)"
    if "p \<in> set [1..<Suc ?k]" for p
  proof -
    from that have "1 \<le> p" and "p \<le> ?k" by (simp_all del: upt_Suc)
    then have "0 < p" and "p < 2 ^ 53" using small by simp_all
    from data_pageQuery [OF assms(6,7) this, of ps q] show ?thesis by (simp only: f)
  qed
  have "allPages ps q l = concat (map (\<lambda>p. data (getProducts ps (pageQuery q l p))) [1..<Suc ?k])"
    by (simp only: allPages_def k)
  also have "\<dots> = concat (map (\<lambda>p. take ?L (drop ((p - 1) * ?L) ?xs)) [1..<Suc ?k])"
    using page by (intro arg_cong[where f=concat] map_cong) (rule refl)
  also have "\<dots> = concat (map (\<lambda>p. take ?L (drop (p * ?L) ?xs)) [0..<?k])"
    by (simp only: One_nat_def map_Suc_upt[symmetric] map_map o_def diff_Suc_Suc diff_zero)
  also have "\<dots> = take (?k * ?L) ?xs" by (rule concat_pages)
  also have "\<dots> = ?xs" using ceiling_pages_cover [OF L(2), of "length ?xs"] by simp
  finally show ?thesis by (simp add: mset_sortStage)
qed

lemma sorted_sample:
  "map id' (sortStage [''sortBy'' \<mapsto> ''price''] sampleProducts) = [''3'', ''5'', ''4'', ''2'', ''1'']"
  by (simp add: sortStage_def truthyParam_def sampleProducts_def compareProducts_def fieldLess_def)

theorem pages_partition_witness:
  "map id' (allPages sampleProducts [''sortBy'' \<mapsto> ''price''] 2) = [''3'', ''5'', ''4'', ''2'', ''1'']"
proof -
  let ?q = "[''sortBy'' \<mapsto> ''price'']"
  have none: "?q ''search'' = None" "?q ''category'' = None" "?q ''inStock'' = None"
    "?q ''minPrice'' = None" "?q ''maxPrice'' = None"
    by simp_all
  have pos: "0 < (2::nat)" by simp
  have fin: "toDouble (int 2) \<noteq> PlusInfinity" by (simp add: toDouble_small)
  have len: "length sampleProducts < 2 ^ 32" by (simp add: sampleProducts_def)
  note all = pages_partition [OF none pos fin len]
  show ?thesis by (simp only: conjunct1 [OF all] sorted_sample)
qed

lemma huge_limit: "toDouble (int (10 ^ 309)) = PlusInfinity"
proof -
  have "int (10 ^ 309) = 10 ^ 309" by simp
  moreover have "toDouble (10 ^ 309) = PlusInfinity" by code_simp
  ultimately show ?thesis by simp
qed

text \<open>
  The claim as stated fails for a page size of 310 digits: \<open>parseInt\<close> reads it as
  infinity, \<open>totalPages\<close> is 0, so there is no page from 1 to \<open>totalPages\<close>, while page
  1 holds all five sample products.
\<close>

theorem huge_limit_counterexample:
  "allPages sampleProducts Map.empty (10 ^ 309) = []
   \<and> totalPages (pagination (getProducts sampleProducts (pageQuery Map.empty (10 ^ 309) 1))) = 0
   \<and> data (getProducts sampleProducts (pageQuery Map.empty (10 ^ 309) 1)) = sampleProducts
   \<and> sortStage Map.empty sampleProducts = sampleProducts
   \<and> sampleProducts \<noteq> []"
  using infinite_limit [OF huge_limit, of sampleProducts Map.empty]
  by (simp add: sortStage_def filterStages_none truthyParam_def sampleProducts_def)

subsection \<open>The validator reports every violated field\<close>

lemma trim_Nil [simp]: "trim [] = []"
  by (simp add: trim_def)

lemma nonempty_string_check:
  "(falsy v \<or> typeof v \<noteq> ''string'' \<or> length (trim (strOf v)) = 0)
     = (case v of Some (JStr s) \<Rightarrow> trim s = [] | _ \<Rightarrow> True)"
  by (auto simp: falsy_def typeof_def strOf_def split: option.split json.split)

lemma string_check:
  "(falsy v \<or> typeof v \<noteq> ''string'') = (case v of Some (JStr s) \<Rightarrow> s = [] | _ \<Rightarrow> True)"
  by (simp add: falsy_def typeof_def split: option.split json.split)

lemma number_check:
  "(v = None \<or> typeof v \<noteq> ''number'' \<or> numOf v < 0)
     = (case v of Some (JNum n) \<Rightarrow> n < 0 | _ \<Rightarrow> True)"
  by (simp add: typeof_def numOf_def split: option.split json.split)

lemma boolean_check:
  "(v \<noteq> None \<and> typeof v \<noteq> ''boolean'')
     = (case v of None \<Rightarrow> False | Some (JBool x) \<Rightarrow> False | _ \<Rightarrow> True)"
  by (simp add: typeof_def split: option.split json.split)

lemma validationErrors_violated:
  "validationErrors b = map fieldMessage (filter (\<lambda>f. violated f b) specificationOrder)"
  unfolding validationErrors_def Let_def nonempty_string_check string_check number_check
    boolean_check specificationOrder_def
  by simp

lemma violated_spec:
  "violated f b =
     (if f = DescriptionField
      then (case b ''description'' of Some (JStr s) \<Rightarrow> s = [] | _ \<Rightarrow> True)
      else specViolated f b)"
  by (cases f) simp_all

text \<open>
  C6, amended. The validator accepts a body, or fails with a ValidationError (status 400)
  whose message joins the messages of all violated fields in the order name, description,
  price, category, inStock, not only the first. A field is violated by the rule of the
  specification for it, except the description, which is violated when it is missing, not
  a string or empty, and not when it holds white space alone. For the body
  \<open>{name: "", price: -1}\<close> the message lists the name and the price violation (and those
  of the two missing fields).
\<close>

theorem validator_lists_all:
  "validateProduct ev req st =
     (if filter (\<lambda>f. violated f (body req)) specificationOrder = [] then (Next, st)
      else (Fail (ValidationError (joinWith '', ''
              (map fieldMessage (filter (\<lambda>f. violated f (body req)) specificationOrder)))), st))
   \<and> statusCode (ValidationError m) = Some 400
   \<and> violated f (body req) =
       (if f = DescriptionField
        then (case body req ''description'' of Some (JStr s) \<Rightarrow> s = [] | _ \<Rightarrow> True)
        else specViolated f (body req))"
  by (simp add: validateProduct_def Let_def validationErrors_violated violated_spec)

theorem validator_lists_all_witness:
  "validateProduct exampleEnv
     (request POST [''api'', ''products''] None Map.empty
        [''name'' \<mapsto> JStr [], ''price'' \<mapsto> JNum (- 1)]) initialState =
   (Fail (ValidationError (''Name is required and must be a non-empty string, '' @
      ''Description is required and must be a string, '' @
      ''Price is required and must be a non-negative number, '' @
      ''Category is required and must be a non-empty string'')), initialState)"
  using validator_lists_all [of exampleEnv
      "request POST [''api'', ''products''] None Map.empty
         [''name'' \<mapsto> JStr [], ''price'' \<mapsto> JNum (- 1)]" initialState]
  by (simp add: specificationOrder_def request_def)

text \<open>
  The claim as stated fails for a description of white space alone: by the rule of the
  specification the field is empty after trimming and so violated, yet the validator
  accepts the body.
\<close>

theorem blank_description_counterexample:
  "specViolated DescriptionField
     [''name'' \<mapsto> JStr ''Mouse'', ''description'' \<mapsto> JStr ''  '', ''price'' \<mapsto> JNum 5,
      ''category'' \<mapsto> JStr ''electronics'']
   \<and> validateProduct exampleEnv
       (request POST [''api'', ''products''] (Some ''your_secret_api_key_here'') Map.empty
          [''name'' \<mapsto> JStr ''Mouse'', ''description'' \<mapsto> JStr ''  '', ''price'' \<mapsto> JNum 5,
           ''category'' \<mapsto> JStr ''electronics''])
       initialState = (Next, initialState)"
  by (simp add: validateProduct_def validationErrors_violated specificationOrder_def
      request_def trim_def isWhiteSpace_def)

subsection \<open>Statistics\<close>

text \<open>
  C9. For the empty collection the statistics are: total count 0, no product in or out of
  stock, no category entry, average price 0 (the division is not carried out) and total
  value 0.
\<close>

theorem stats_empty:
  "getStats [] = \<lparr>stats.totalProducts = 0, stats.inStock = 0, outOfStock = 0, byCategory = [],
      averagePrice = 0, stats.totalValue = 0\<rparr>"
  by (simp add: getStats_def)

subsection \<open>The middleware chain\<close>

lemma runStages_logger:
  "runStages ((Logger, requestLogger) # rest) ev req st =
     (case runStages rest ev req (snd (requestLogger ev req st)) of
        (tr, res, st') \<Rightarrow> (Logger # tr, res, st'))"
  by (simp add: requestLogger_def)

lemma products_logger [simp]: "products (snd (requestLogger ev req st)) = products st"
  by (simp add: requestLogger_def)

lemma authenticate_state: "snd (authenticate ev req st) = st"
  by (simp add: authenticate_def Let_def)

lemma authenticate_any_state:
  "fst (authenticate ev req st) = fst (authenticate ev req st0)"
  by (simp add: authenticate_def Let_def)

lemma validateProduct_state: "snd (validateProduct ev req st) = st"
  by (simp add: validateProduct_def Let_def)

lemma validateProduct_any_state:
  "fst (validateProduct ev req st) = fst (validateProduct ev req st0)"
  by (simp add: validateProduct_def Let_def)



text \<open>A stage that fails ends the run: the stages after it do not run.\<close>

lemma runStages_fail:
  "f ev req st = (Fail err, st') \<Longrightarrow> runStages ((n, f) # rest) ev req st = ([n], Inl err, st')"
  by simp

lemma runStages_next:
  "f ev req st = (Next, st') \<Longrightarrow>
   runStages ((n, f) # rest) ev req st =
     (case runStages rest ev req st' of (tr, res, st'') \<Rightarrow> (n # tr, res, st''))"
  by simp

lemma runStages_auth_fail:
  assumes "fst (authenticate ev req st) = Fail err"
  shows "runStages ((Authenticator, authenticate) # rest) ev req st = ([Authenticator], Inl err, st)"
proof -
  have "authenticate ev req st = (Fail err, st)"
    using assms authenticate_state [of ev req st] by (cases "authenticate ev req st") simp
  then show ?thesis by (rule runStages_fail)
qed

lemma runStages_auth_next:
  assumes "fst (authenticate ev req st) = Next"
  shows "runStages ((Authenticator, authenticate) # rest) ev req st =
     (case runStages rest ev req st of (tr, res, st') \<Rightarrow> (Authenticator # tr, res, st'))"
proof -
  have "authenticate ev req st = (Next, st)"
    using assms authenticate_state [of ev req st] by (cases "authenticate ev req st") simp
  then show ?thesis by (rule runStages_next)
qed

lemma runStages_valid_fail:
  assumes "fst (validateProduct ev req st) = Fail err"
  shows "runStages ((Validator, validateProduct) # rest) ev req st = ([Validator], Inl err, st)"
proof -
  have "validateProduct ev req st = (Fail err, st)"
    using assms validateProduct_state [of ev req st] by (cases "validateProduct ev req st") simp
  then show ?thesis by (rule runStages_fail)
qed

lemma runStages_valid_next:
  assumes "fst (validateProduct ev req st) = Next"
  shows "runStages ((Validator, validateProduct) # rest) ev req st =
     (case runStages rest ev req st of (tr, res, st') \<Rightarrow> (Validator # tr, res, st'))"
proof -
  have "validateProduct ev req st = (Next, st)"
    using assms validateProduct_state [of ev req st] by (cases "validateProduct ev req st") simp
  then show ?thesis by (rule runStages_next)
qed




lemma auth_on_logged:
  "fst (authenticate ev req (snd (requestLogger ev req st))) = fst (authenticate ev req st)"
  by (rule authenticate_any_state)

lemma valid_on_logged:
  "fst (validateProduct ev req (snd (requestLogger ev req st))) = fst (validateProduct ev req st)"
  by (rule validateProduct_any_state)


lemma run_auth_fail:
  assumes "mutating (matchRoute (httpMethod req) (urlPath req))"
    and "fst (authenticate ev req st) = Fail err"
  shows "runStages (stagesOf req) ev req st =
     ([Logger, Authenticator], Inl err, snd (requestLogger ev req st))"
proof -
  have a: "fst (authenticate ev req (snd (requestLogger ev req st))) = Fail err"
    using assms(2) by (simp only: auth_on_logged)
  show ?thesis
    using assms(1)
    by (cases "matchRoute (httpMethod req) (urlPath req)")
      (simp_all add: stagesOf_def runStages_logger runStages_auth_fail [OF a]
        del: runStages.simps(2))
qed

lemma run_auth_next:
  assumes "mutating (matchRoute (httpMethod req) (urlPath req))"
    and "fst (authenticate ev req st) = Next"
  shows "runStages (stagesOf req) ev req st =
     (case runStages (tl (routeStages (matchRoute (httpMethod req) (urlPath req)))) ev req
             (snd (requestLogger ev req st)) of
        (tr, res, st') \<Rightarrow> (Logger # Authenticator # tr, res, st'))"
proof -
  have a: "fst (authenticate ev req (snd (requestLogger ev req st))) = Next"
    using assms(2) by (simp only: auth_on_logged)
  show ?thesis
    using assms(1)
    by (cases "matchRoute (httpMethod req) (urlPath req)")
      (simp_all add: stagesOf_def runStages_logger runStages_auth_next [OF a]
        split: prod.split del: runStages.simps(2))
qed

lemma run_valid_fail:
  assumes "validating (matchRoute (httpMethod req) (urlPath req))"
    and "fst (authenticate ev req st) = Next"
    and "fst (validateProduct ev req st) = Fail err"
  shows "runStages (stagesOf req) ev req st =
     ([Logger, Authenticator, Validator], Inl err, snd (requestLogger ev req st))"
proof -
  have m: "mutating (matchRoute (httpMethod req) (urlPath req))"
    using assms(1) by (cases "matchRoute (httpMethod req) (urlPath req)") simp_all
  have v: "fst (validateProduct ev req (snd (requestLogger ev req st))) = Fail err"
    using assms(3) by (simp only: valid_on_logged)
  show ?thesis
    using assms(1)
    by (cases "matchRoute (httpMethod req) (urlPath req)")
      (simp_all add: run_auth_next [OF m assms(2)] runStages_valid_fail [OF v]
        del: runStages.simps(2))
qed

lemma run_valid_next:
  assumes "validating (matchRoute (httpMethod req) (urlPath req))"
    and "fst (authenticate ev req st) = Next"
    and "fst (validateProduct ev req st) = Next"
  shows "runStages (stagesOf req) ev req st =
     (case runStages (drop 2 (routeStages (matchRoute (httpMethod req) (urlPath req)))) ev req
             (snd (requestLogger ev req st)) of
        (tr, res, st') \<Rightarrow> (Logger # Authenticator # Validator # tr, res, st'))"
proof -
  have m: "mutating (matchRoute (httpMethod req) (urlPath req))"
    using assms(1) by (cases "matchRoute (httpMethod req) (urlPath req)") simp_all
  have v: "fst (validateProduct ev req (snd (requestLogger ev req st))) = Next"
    using assms(3) by (simp only: valid_on_logged)
  show ?thesis
    using assms(1)
    by (cases "matchRoute (httpMethod req) (urlPath req)")
      (simp_all add: run_auth_next [OF m assms(2)] runStages_valid_next [OF v]
        split: prod.split del: runStages.simps(2))
qed


lemma snd_traced: "snd (case x of (tr, y) \<Rightarrow> (f tr, y)) = snd x"
  by (simp split: prod.split)


lemma state_handleRequest:
  "snd (snd (handleRequest ev req st)) = snd (snd (runStages (stagesOf req) ev req st))"
  by (simp add: handleRequest_def split: prod.split sum.split)

lemma response_handleRequest:
  "fst (snd (handleRequest ev req st)) =
     (case fst (snd (runStages (stagesOf req) ev req st)) of
        Inl err \<Rightarrow> errorHandler err | Inr r \<Rightarrow> r)"
  by (simp add: handleRequest_def split: prod.split sum.split)



lemma failed_run_state:
  "runStages (stagesOf req) ev req st = (tr, Inl err, snd (requestLogger ev req st)) \<Longrightarrow>
   products (snd (snd (handleRequest ev req st))) = products st
   \<and> fst (snd (handleRequest ev req st)) = errorHandler err"
  by (simp add: handleRequest_def)

lemma denied_run:
  assumes "mutating (matchRoute (httpMethod req) (urlPath req))"
    and "fst (authenticate ev req st) = Fail (AuthenticationError m)"
  shows "handleRequest ev req st =
     ([Logger, Authenticator], errorHandler (AuthenticationError m), snd (requestLogger ev req st))"
  by (simp add: handleRequest_def run_auth_fail [OF assms])

lemma invalid_run:
  assumes "validating (matchRoute (httpMethod req) (urlPath req))"
    and "fst (authenticate ev req st) = Next"
    and "fst (validateProduct ev req st) = Fail (ValidationError m)"
  shows "handleRequest ev req st =
     ([Logger, Authenticator, Validator], errorHandler (ValidationError m),
      snd (requestLogger ev req st))"
  by (simp add: handleRequest_def run_valid_fail [OF assms])





subsection \<open>The authenticator\<close>

text \<open>
  C7, amended. On every mutating route: a request whose credential header is absent or
  empty is answered with status 401 and the message "API key is required"; one whose
  header is not empty and differs from the configured secret is answered with status 401
  and the message "Invalid API key"; one whose header is not empty and equals the secret
  passes the authenticator, which leaves the state as it is, and the remaining stages of
  the route run on the same request.
\<close>

theorem authenticator_outcomes:
  assumes "mutating (matchRoute (httpMethod req) (urlPath req))"
  shows "(apiKeyHeader req = None \<or> apiKeyHeader req = Some [] \<longrightarrow>
            handleRequest ev req st =
              ([Logger, Authenticator],
               \<lparr>status = 401, payload = Failure ''API key is required''\<rparr>,
               snd (requestLogger ev req st)))
       \<and> (apiKeyHeader req \<noteq> None \<and> apiKeyHeader req \<noteq> Some []
            \<and> apiKeyHeader req \<noteq> API_KEY ev \<longrightarrow>
            handleRequest ev req st =
              ([Logger, Authenticator],
               \<lparr>status = 401, payload = Failure ''Invalid API key''\<rparr>,
               snd (requestLogger ev req st)))
       \<and> (apiKeyHeader req \<noteq> None \<and> apiKeyHeader req \<noteq> Some []
            \<and> apiKeyHeader req = API_KEY ev \<longrightarrow>
            authenticate ev req st = (Next, st)
            \<and> runStages (stagesOf req) ev req st =
                (case runStages (tl (routeStages (matchRoute (httpMethod req) (urlPath req))))
                        ev req (snd (requestLogger ev req st)) of
                   (tr, res, st') \<Rightarrow> (Logger # Authenticator # tr, res, st')))"
proof (intro conjI impI)
  assume "apiKeyHeader req = None \<or> apiKeyHeader req = Some []"
  then have "fst (authenticate ev req st) = Fail (AuthenticationError ''API key is required'')"
    by (auto simp: authenticate_def Let_def)
  from denied_run [OF assms this]
  show "handleRequest ev req st =
      ([Logger, Authenticator], \<lparr>status = 401, payload = Failure ''API key is required''\<rparr>,
       snd (requestLogger ev req st))"
    by (simp add: errorHandler_def)
next
  assume "apiKeyHeader req \<noteq> None \<and> apiKeyHeader req \<noteq> Some []
      \<and> apiKeyHeader req \<noteq> API_KEY ev"
  then have "fst (authenticate ev req st) = Fail (AuthenticationError ''Invalid API key'')"
    by (auto simp: authenticate_def Let_def)
  from denied_run [OF assms this]
  show "handleRequest ev req st =
      ([Logger, Authenticator], \<lparr>status = 401, payload = Failure ''Invalid API key''\<rparr>,
       snd (requestLogger ev req st))"
    by (simp add: errorHandler_def)
next
  assume ok: "apiKeyHeader req \<noteq> None \<and> apiKeyHeader req \<noteq> Some []
      \<and> apiKeyHeader req = API_KEY ev"
  then show "authenticate ev req st = (Next, st)" by (auto simp: authenticate_def Let_def)
  then have "fst (authenticate ev req st) = Next" by simp
  from run_auth_next [OF assms this]
  show "runStages (stagesOf req) ev req st =
      (case runStages (tl (routeStages (matchRoute (httpMethod req) (urlPath req))))
              ev req (snd (requestLogger ev req st)) of
         (tr, res, st') \<Rightarrow> (Logger # Authenticator # tr, res, st'))" .
qed

theorem authenticator_outcomes_witness:
  "fst (snd (handleRequest exampleEnv
      (request DELETE [''api'', ''products'', ''1''] None Map.empty Map.empty) initialState))
     = \<lparr>status = 401, payload = Failure ''API key is required''\<rparr>
   \<and> fst (snd (handleRequest exampleEnv
      (request DELETE [''api'', ''products'', ''1''] (Some ''guess'') Map.empty Map.empty)
      initialState))
     = \<lparr>status = 401, payload = Failure ''Invalid API key''\<rparr>
   \<and> authenticate exampleEnv
      (request DELETE [''api'', ''products'', ''1''] (Some ''your_secret_api_key_here'')
         Map.empty Map.empty) initialState = (Next, initialState)"
  using authenticator_outcomes [where ev = exampleEnv and st = initialState
      and req = "request DELETE [''api'', ''products'', ''1''] None Map.empty Map.empty"]
    authenticator_outcomes [where ev = exampleEnv and st = initialState
      and req = "request DELETE [''api'', ''products'', ''1''] (Some ''guess'') Map.empty Map.empty"]
    authenticator_outcomes [where ev = exampleEnv and st = initialState
      and req = "request DELETE [''api'', ''products'', ''1''] (Some ''your_secret_api_key_here'')
         Map.empty Map.empty"]
  by (simp add: request_def matchRoute_def isProductPath_def exampleEnv_def)

text \<open>
  The claim as stated fails for a header that is present but empty: it differs from the
  secret, yet the message is "API key is required" and not "Invalid API key".
\<close>

theorem empty_key_counterexample:
  "apiKeyHeader (request POST [''api'', ''products''] (Some []) Map.empty Map.empty) \<noteq> None
   \<and> apiKeyHeader (request POST [''api'', ''products''] (Some []) Map.empty Map.empty)
       \<noteq> API_KEY exampleEnv
   \<and> fst (snd (handleRequest exampleEnv
        (request POST [''api'', ''products''] (Some []) Map.empty Map.empty) initialState))
       = \<lparr>status = 401, payload = Failure ''API key is required''\<rparr>
   \<and> fst (snd (handleRequest exampleEnv
        (request POST [''api'', ''products''] (Some []) Map.empty Map.empty) initialState))
       \<noteq> \<lparr>status = 401, payload = Failure ''Invalid API key''\<rparr>"
  by (simp add: request_def exampleEnv_def handleRequest_def stagesOf_def matchRoute_def
      requestLogger_def authenticate_def errorHandler_def)

subsection \<open>Create and update\<close>

lemma findIndex_Some:
  "findIndex P xs = Some k \<Longrightarrow> k < length xs \<and> P (xs ! k)"
proof (induction xs arbitrary: k)
  case Nil
  then show ?case by simp
next
  case (Cons x xs)
  then show ?case by (auto split: if_splits)
qed

lemma no_violation:
  assumes "validationErrors b = []"
  shows "\<not> violated NameField b" "\<not> violated DescriptionField b" "\<not> violated PriceField b"
    "\<not> violated CategoryField b" "\<not> violated InStockField b"
  using assms
  by (simp_all add: validationErrors_violated specificationOrder_def split: if_splits)

lemma string_field:
  "(case v of Some (JStr s) \<Rightarrow> P s | _ \<Rightarrow> True) = (\<forall>s. v = Some (JStr s) \<longrightarrow> P s)"
  by (simp split: option.split json.split)

lemma validated_fields:
  assumes "validationErrors b = []"
  shows "\<exists>n d pr c. b ''name'' = Some (JStr n) \<and> b ''description'' = Some (JStr d)
      \<and> b ''price'' = Some (JNum pr) \<and> b ''category'' = Some (JStr c)
      \<and> bodyFields b = Inr (trim n, trim d, pr, toLowerCase (trim c),
           (case b ''inStock'' of Some (JBool v) \<Rightarrow> Some v | _ \<Rightarrow> None))"
proof -
  from no_violation(1) [OF assms] obtain n where n: "b ''name'' = Some (JStr n)"
    by (auto split: option.splits json.splits)
  from no_violation(2) [OF assms] obtain d where d: "b ''description'' = Some (JStr d)"
    by (auto split: option.splits json.splits)
  from no_violation(3) [OF assms] obtain pr where pr: "b ''price'' = Some (JNum pr)"
    by (auto split: option.splits json.splits)
  from no_violation(4) [OF assms] obtain c where c: "b ''category'' = Some (JStr c)"
    by (auto split: option.splits json.splits)
  from no_violation(5) [OF assms]
  have s: "b ''inStock'' = None \<or> (\<exists>v. b ''inStock'' = Some (JBool v))"
    by (auto split: option.splits json.splits)
  from s have "bodyFields b = Inr (trim n, trim d, pr, toLowerCase (trim c),
      (case b ''inStock'' of Some (JBool v) \<Rightarrow> Some v | _ \<Rightarrow> None))"
    by (auto simp: bodyFields_def n d pr c)
  with n d pr c show ?thesis by blast
qed

lemma missing_field_invalid:
  assumes "b ''name'' = None \<or> b ''description'' = None \<or> b ''price'' = None
    \<or> b ''category'' = None"
  shows "validationErrors b \<noteq> []"
  using assms by (auto simp: validationErrors_violated specificationOrder_def)

lemma valid_passes:
  "validationErrors (body req) = [] \<Longrightarrow> fst (validateProduct ev req st) = Next"
  by (simp add: validateProduct_def)

lemma invalid_fails:
  "validationErrors (body req) \<noteq> [] \<Longrightarrow>
   fst (validateProduct ev req st) = Fail (ValidationError (joinWith '', '' (validationErrors (body req))))"
  by (simp add: validateProduct_def)

lemma update_run:
  assumes route: "matchRoute (httpMethod req) (urlPath req) = UpdateProduct i"
    and auth: "fst (authenticate ev req st) = Next"
    and valid: "validationErrors (body req) = []"
  shows "snd (snd (handleRequest ev req st)) =
     snd (updateHandler i ev req (snd (requestLogger ev req st)))"
proof -
  have v: "validating (matchRoute (httpMethod req) (urlPath req))" by (simp add: route)
  note run = run_valid_next [OF v auth valid_passes [OF valid]]
  show ?thesis
    by (cases "updateHandler i ev req (snd (requestLogger ev req st))";
        cases "fst (updateHandler i ev req (snd (requestLogger ev req st)))")
      (simp_all add: state_handleRequest run route)
qed

lemma create_run:
  assumes route: "matchRoute (httpMethod req) (urlPath req) = CreateProduct"
    and auth: "fst (authenticate ev req st) = Next"
    and valid: "validationErrors (body req) = []"
  shows "snd (snd (handleRequest ev req st)) =
     snd (createHandler ev req (snd (requestLogger ev req st)))"
proof -
  have v: "validating (matchRoute (httpMethod req) (urlPath req))" by (simp add: route)
  note run = run_valid_next [OF v auth valid_passes [OF valid]]
  show ?thesis
    by (cases "createHandler ev req (snd (requestLogger ev req st))";
        cases "fst (createHandler ev req (snd (requestLogger ev req st)))")
      (simp_all add: state_handleRequest run route)
qed

lemma update_stored:
  assumes route: "matchRoute (httpMethod req) (urlPath req) = UpdateProduct i"
    and auth: "fst (authenticate ev req st) = Next"
    and found: "findIndex (\<lambda>p. id' p = i) (products st) = Some k"
    and valid: "validationErrors (body req) = []"
  shows "\<exists>n d pr c. body req ''name'' = Some (JStr n) \<and> body req ''description'' = Some (JStr d)
      \<and> body req ''price'' = Some (JNum pr) \<and> body req ''category'' = Some (JStr c)
      \<and> products (snd (snd (handleRequest ev req st))) =
          (products st)[k := \<lparr>id' = id' (products st ! k), name = trim n, description = trim d,
             price = pr, category = toLowerCase (trim c),
             inStock = (case body req ''inStock'' of Some (JBool v) \<Rightarrow> v
                        | _ \<Rightarrow> inStock (products st ! k))\<rparr>]"
proof -
  from validated_fields [OF valid] obtain n d pr c where
    f: "body req ''name'' = Some (JStr n)" "body req ''description'' = Some (JStr d)"
       "body req ''price'' = Some (JNum pr)" "body req ''category'' = Some (JStr c)"
    and bf: "bodyFields (body req) = Inr (trim n, trim d, pr, toLowerCase (trim c),
           (case body req ''inStock'' of Some (JBool v) \<Rightarrow> Some v | _ \<Rightarrow> None))"
    by blast
  have "products (snd (updateHandler i ev req (snd (requestLogger ev req st)))) =
      (products st)[k := \<lparr>id' = id' (products st ! k), name = trim n, description = trim d,
             price = pr, category = toLowerCase (trim c),
             inStock = (case body req ''inStock'' of Some (JBool v) \<Rightarrow> v
                        | _ \<Rightarrow> inStock (products st ! k))\<rparr>]"
    by (cases "products st ! k")
      (simp add: updateHandler_def found bf Let_def split: option.split json.split)
  with f update_run [OF route auth valid] show ?thesis by auto
qed

lemma create_stored:
  assumes route: "matchRoute (httpMethod req) (urlPath req) = CreateProduct"
    and auth: "fst (authenticate ev req st) = Next"
    and valid: "validationErrors (body req) = []"
  shows "\<exists>p. products (snd (snd (handleRequest ev req st))) = products st @ [p]
      \<and> id' p = uuidv4 ev"
proof -
  from validated_fields [OF valid] obtain x where bf: "bodyFields (body req) = Inr x" by blast
  have "\<exists>p. products (snd (createHandler ev req (snd (requestLogger ev req st)))) = products st @ [p]
      \<and> id' p = uuidv4 ev"
    by (cases x) (simp add: createHandler_def bf Let_def)
  with create_run [OF route auth valid] show ?thesis by simp
qed

lemma rejected_unchanged:
  assumes v: "validating (matchRoute (httpMethod req) (urlPath req))"
    and auth: "fst (authenticate ev req st) = Next"
    and invalid: "validationErrors (body req) \<noteq> []"
  shows "status (fst (snd (handleRequest ev req st))) = 400
      \<and> products (snd (snd (handleRequest ev req st))) = products st"
  using invalid_run [OF v auth invalid_fails [OF invalid]] by (simp add: errorHandler_def)

text \<open>
  C1, amended. An update that passed the authenticator and names a stored record needs
  name, description, price and category in its body: a body that lacks one of them is
  invalid, and an invalid body is answered with status 400 and leaves the collection as
  it is. For a valid body the stored record keeps its \<open>id\<close>, takes name, description,
  price and category from the body (strings trimmed, the category in lower case), and
  takes \<open>inStock\<close> from the body when it is present and keeps its stored value when it
  is omitted; no other record changes. A create appends one record whose \<open>id\<close> is the
  generated identifier. Neither operation reads an \<open>id\<close> from the body.
\<close>

theorem update_merge:
  "(matchRoute (httpMethod req) (urlPath req) = UpdateProduct i
      \<and> fst (authenticate ev req st) = Next
      \<and> findIndex (\<lambda>p. id' p = i) (products st) = Some k \<longrightarrow>
      (body req ''name'' = None \<or> body req ''description'' = None \<or> body req ''price'' = None
         \<or> body req ''category'' = None \<longrightarrow> validationErrors (body req) \<noteq> [])
      \<and> (validationErrors (body req) \<noteq> [] \<longrightarrow>
           status (fst (snd (handleRequest ev req st))) = 400
           \<and> products (snd (snd (handleRequest ev req st))) = products st)
      \<and> (validationErrors (body req) = [] \<longrightarrow>
           (\<exists>n d pr c. body req ''name'' = Some (JStr n)
              \<and> body req ''description'' = Some (JStr d)
              \<and> body req ''price'' = Some (JNum pr)
              \<and> body req ''category'' = Some (JStr c)
              \<and> products (snd (snd (handleRequest ev req st))) =
                  (products st)[k := \<lparr>id' = id' (products st ! k), name = trim n,
                     description = trim d, price = pr, category = toLowerCase (trim c),
                     inStock = (case body req ''inStock'' of Some (JBool v) \<Rightarrow> v
                                | _ \<Rightarrow> inStock (products st ! k))\<rparr>]))
      \<and> k < length (products st) \<and> id' (products st ! k) = i)
   \<and> (matchRoute (httpMethod req) (urlPath req) = CreateProduct
      \<and> fst (authenticate ev req st) = Next \<and> validationErrors (body req) = [] \<longrightarrow>
      (\<exists>p. products (snd (snd (handleRequest ev req st))) = products st @ [p]
         \<and> id' p = uuidv4 ev))"
proof (intro conjI impI)
  assume "body req ''name'' = None \<or> body req ''description'' = None
      \<or> body req ''price'' = None \<or> body req ''category'' = None"
  then show "validationErrors (body req) \<noteq> []" by (rule missing_field_invalid)
next
  assume a: "matchRoute (httpMethod req) (urlPath req) = UpdateProduct i
      \<and> fst (authenticate ev req st) = Next
      \<and> findIndex (\<lambda>p. id' p = i) (products st) = Some k"
    and invalid: "validationErrors (body req) \<noteq> []"
  from a have v: "validating (matchRoute (httpMethod req) (urlPath req))" by simp
  from rejected_unchanged [OF v _ invalid] a
  show "status (fst (snd (handleRequest ev req st))) = 400" 
    and "products (snd (snd (handleRequest ev req st))) = products st" by simp_all
next
  assume a: "matchRoute (httpMethod req) (urlPath req) = UpdateProduct i
      \<and> fst (authenticate ev req st) = Next
      \<and> findIndex (\<lambda>p. id' p = i) (products st) = Some k"
    and valid: "validationErrors (body req) = []"
  from a update_stored [OF _ _ _ valid, of i ev st k]
  show "\<exists>n d pr c. body req ''name'' = Some (JStr n)
              \<and> body req ''description'' = Some (JStr d)
              \<and> body req ''price'' = Some (JNum pr)
              \<and> body req ''category'' = Some (JStr c)
              \<and> products (snd (snd (handleRequest ev req st))) =
                  (products st)[k := \<lparr>id' = id' (products st ! k), name = trim n,
                     description = trim d, price = pr, category = toLowerCase (trim c),
                     inStock = (case body req ''inStock'' of Some (JBool v) \<Rightarrow> v
                                | _ \<Rightarrow> inStock (products st ! k))\<rparr>]" by simp
next
  assume "matchRoute (httpMethod req) (urlPath req) = UpdateProduct i
      \<and> fst (authenticate ev req st) = Next
      \<and> findIndex (\<lambda>p. id' p = i) (products st) = Some k"
  then have "k < length (products st) \<and> id' (products st ! k) = i"
    using findIndex_Some [of "\<lambda>p. id' p = i" "products st" k] by simp
  then show "k < length (products st)" and "id' (products st ! k) = i" by simp_all
next
  assume a: "matchRoute (httpMethod req) (urlPath req) = CreateProduct
      \<and> fst (authenticate ev req st) = Next \<and> validationErrors (body req) = []"
  then show "\<exists>p. products (snd (snd (handleRequest ev req st))) = products st @ [p]
         \<and> id' p = uuidv4 ev"
    using create_stored [of req ev st] by simp
qed

lemma lower_example: "toLowerCase ''Kitchen'' = ''kitchen''"
  by code_simp

lemma trim_example: "trim '' Coffee Maker '' = ''Coffee Maker''" "trim ''Updated'' = ''Updated''"
  "trim ''Kitchen'' = ''Kitchen''"
  by (simp_all add: trim_def isWhiteSpace_def)

theorem update_merge_witness:
  "products (snd (snd (handleRequest exampleEnv
      (request PUT [''api'', ''products'', ''3''] (Some ''your_secret_api_key_here'') Map.empty
         [''name'' \<mapsto> JStr '' Coffee Maker '', ''description'' \<mapsto> JStr ''Updated'',
          ''price'' \<mapsto> JNum 60, ''category'' \<mapsto> JStr ''Kitchen'', ''id'' \<mapsto> JStr ''99''])
      initialState)))
   = sampleProducts[2 := \<lparr>id' = ''3'', name = ''Coffee Maker'', description = ''Updated'',
        price = 60, category = ''kitchen'', inStock = False\<rparr>]
   \<and> validationErrors [''price'' \<mapsto> JNum 120] \<noteq> []"
proof -
  let ?b = "[''name'' \<mapsto> JStr '' Coffee Maker '', ''description'' \<mapsto> JStr ''Updated'',
          ''price'' \<mapsto> JNum 60, ''category'' \<mapsto> JStr ''Kitchen'', ''id'' \<mapsto> JStr ''99'']"
  let ?req = "request PUT [''api'', ''products'', ''3''] (Some ''your_secret_api_key_here'')
      Map.empty ?b"
  let ?req2 = "request PUT [''api'', ''products'', ''3''] (Some ''your_secret_api_key_here'')
      Map.empty [''price'' \<mapsto> JNum 120]"
  have route: "matchRoute (httpMethod ?req) (urlPath ?req) = UpdateProduct ''3''"
    "matchRoute (httpMethod ?req2) (urlPath ?req2) = UpdateProduct ''3''"
    by (simp_all add: request_def matchRoute_def isProductPath_def)
  have auth: "fst (authenticate exampleEnv ?req initialState) = Next"
    "fst (authenticate exampleEnv ?req2 initialState) = Next"
    by (simp_all add: request_def authenticate_def exampleEnv_def)
  have found: "findIndex (\<lambda>p. id' p = ''3'') (products initialState) = Some 2"
    by (simp add: initialState_def sampleProducts_def)
  have valid: "validationErrors (body ?req) = []"
    by (simp add: request_def validationErrors_violated specificationOrder_def trim_example)
  have old: "products initialState ! 2 = \<lparr>id' = ''3'', name = ''Coffee Maker'',
      description = ''Programmable coffee maker with timer'', price = 50,
      category = ''kitchen'', inStock = False\<rparr>"
    by (simp add: initialState_def sampleProducts_def)
  have b: "body ?req = ?b" "body ?req2 = [''price'' \<mapsto> JNum 120]" by (simp_all add: request_def)
  from update_merge [of ?req "''3''" exampleEnv initialState 2] route auth found valid
  have one: "products (snd (snd (handleRequest exampleEnv ?req initialState)))
      = sampleProducts[2 := \<lparr>id' = ''3'', name = ''Coffee Maker'', description = ''Updated'',
        price = 60, category = ''kitchen'', inStock = False\<rparr>]"
    by (simp add: b old trim_example lower_example) (simp add: initialState_def)
  from update_merge [of ?req2 "''3''" exampleEnv initialState 2] route auth found
  have two: "validationErrors [''price'' \<mapsto> JNum 120] \<noteq> []"
    by (simp add: b)
  from one two show ?thesis by simp
qed

text \<open>
  The claim as stated fails on its own example: with the stored record
  \<open>{price: 100, inStock: true}\<close> the update body \<open>{price: 120}\<close> is rejected with status
  400 and the stored price stays 100.
\<close>

theorem partial_body_counterexample:
  "status (fst (snd (handleRequest exampleEnv
      (request PUT [''api'', ''products'', ''1''] (Some ''your_secret_api_key_here'') Map.empty
         [''price'' \<mapsto> JNum 120])
      \<lparr>products = [\<lparr>id' = ''1'', name = ''Laptop'', description = ''High-performance laptop'',
          price = 100, category = ''electronics'', inStock = True\<rparr>], console = []\<rparr>))) = 400
   \<and> map price (products (snd (snd (handleRequest exampleEnv
      (request PUT [''api'', ''products'', ''1''] (Some ''your_secret_api_key_here'') Map.empty
         [''price'' \<mapsto> JNum 120])
      \<lparr>products = [\<lparr>id' = ''1'', name = ''Laptop'', description = ''High-performance laptop'',
          price = 100, category = ''electronics'', inStock = True\<rparr>], console = []\<rparr>)))) = [100]"
proof -
  let ?req = "request PUT [''api'', ''products'', ''1''] (Some ''your_secret_api_key_here'')
      Map.empty [''price'' \<mapsto> JNum 120]"
  let ?st = "\<lparr>products = [\<lparr>id' = ''1'', name = ''Laptop'', description = ''High-performance laptop'',
          price = 100, category = ''electronics'', inStock = True\<rparr>], console = []\<rparr>"
  have v: "validating (matchRoute (httpMethod ?req) (urlPath ?req))"
    by (simp add: request_def matchRoute_def isProductPath_def)
  have auth: "fst (authenticate exampleEnv ?req ?st) = Next"
    by (simp add: request_def authenticate_def exampleEnv_def)
  have invalid: "validationErrors (body ?req) \<noteq> []"
    by (simp add: request_def validationErrors_violated specificationOrder_def)
  from rejected_unchanged [OF v auth invalid] show ?thesis by simp
qed

subsection \<open>Page metadata\<close>

lemma length_sortStage: "length (sortStage q ps) = length ps"
  by (simp add: sortStage_def Let_def length_sortBy)

lemma pagination_getProducts:
  "pagination (getProducts ps q) =
     (let page = orDefault (parseIntParam (q ''page'')) 1;
          lmt = orDefault (parseIntParam (q ''limit'')) 10;
          n = length (filterStages q ps);
          pages = ceilQuotient n lmt
      in \<lparr>currentPage = page, totalPages = pages, totalProducts = n, limit = lmt,
          hasNextPage = lessInt page pages, hasPrevPage = greaterInt page 1\<rparr>)"
  by (simp add: getProducts_def Let_def length_sortStage)

lemma orDefault_nonzero: "d \<noteq> 0 \<Longrightarrow> orDefault v d \<noteq> Finite 0"
  by (simp add: orDefault_def split: option.split xint.split)

lemma ceiling_bounds:
  assumes "0 < l"
  shows "(\<lceil>rat_of_nat n / rat_of_int l\<rceil> - 1) * l < int n
      \<and> int n \<le> \<lceil>rat_of_nat n / rat_of_int l\<rceil> * l"
proof -
  let ?x = "rat_of_nat n / rat_of_int l"
  have pos: "0 < rat_of_int l" using assms by simp
  have "?x \<le> rat_of_int \<lceil>?x\<rceil>" by (rule le_of_int_ceiling)
  then have "rat_of_nat n \<le> rat_of_int \<lceil>?x\<rceil> * rat_of_int l"
    by (simp only: pos_divide_le_eq [OF pos])
  then have "rat_of_int (int n) \<le> rat_of_int (\<lceil>?x\<rceil> * l)" by simp
  then have upper: "int n \<le> \<lceil>?x\<rceil> * l" by (simp only: of_int_le_iff)
  have "rat_of_int \<lceil>?x\<rceil> - 1 < ?x" by (rule ceiling_correct [THEN conjunct1])
  then have "(rat_of_int \<lceil>?x\<rceil> - 1) * rat_of_int l < rat_of_nat n"
    by (simp only: pos_less_divide_eq [OF pos])
  then have "rat_of_int ((\<lceil>?x\<rceil> - 1) * l) < rat_of_int (int n)" by simp
  then have lower: "(\<lceil>?x\<rceil> - 1) * l < int n" by (simp only: of_int_less_iff)
  from lower upper show ?thesis by simp
qed

text \<open>The page metadata of every listing, for a page size that is positive.\<close>

lemma page_metadata:
  "limit (pagination (getProducts ps q)) \<noteq> Finite 0"
  "limit (pagination (getProducts ps q)) = Finite l \<Longrightarrow> 0 < l \<Longrightarrow>
     totalPages (pagination (getProducts ps q))
       = \<lceil>rat_of_nat (pagination.totalProducts (pagination (getProducts ps q))) / rat_of_int l\<rceil>
     \<and> (totalPages (pagination (getProducts ps q)) - 1) * l
          < int (pagination.totalProducts (pagination (getProducts ps q)))
     \<and> int (pagination.totalProducts (pagination (getProducts ps q)))
          \<le> totalPages (pagination (getProducts ps q)) * l"
  "hasNextPage (pagination (getProducts ps q))
     = lessInt (currentPage (pagination (getProducts ps q)))
         (totalPages (pagination (getProducts ps q)))"
  "hasPrevPage (pagination (getProducts ps q))
     = greaterInt (currentPage (pagination (getProducts ps q))) 1"
  "pagination.totalProducts (pagination (getProducts ps q)) = length (filterStages q ps)"
proof -
  show "limit (pagination (getProducts ps q)) \<noteq> Finite 0"
    by (simp add: pagination_getProducts Let_def orDefault_nonzero)
  show "limit (pagination (getProducts ps q)) = Finite l \<Longrightarrow> 0 < l \<Longrightarrow>
     totalPages (pagination (getProducts ps q))
       = \<lceil>rat_of_nat (pagination.totalProducts (pagination (getProducts ps q))) / rat_of_int l\<rceil>
     \<and> (totalPages (pagination (getProducts ps q)) - 1) * l
          < int (pagination.totalProducts (pagination (getProducts ps q)))
     \<and> int (pagination.totalProducts (pagination (getProducts ps q)))
          \<le> totalPages (pagination (getProducts ps q)) * l"
    using ceiling_bounds [of l "length (filterStages q ps)"]
    by (simp add: pagination_getProducts Let_def)
qed (simp_all add: pagination_getProducts Let_def)

text \<open>
  C4. What the listing does for \<open>limit=-2\<close> on the sample data: the page size stays
  \<open>-2\<close>, which is not positive, and \<open>totalPages\<close> is the ceiling of \<open>5 / -2\<close>, that is
  \<open>-2\<close>, and not 0.
\<close>

theorem negative_limit_pages:
  "limit (pagination (getProducts sampleProducts [''limit'' \<mapsto> ''-2''])) = Finite (- 2)
   \<and> totalPages (pagination (getProducts sampleProducts [''limit'' \<mapsto> ''-2''])) = - 2"
  by code_simp


subsection \<open>Range filters and paging on the sample data\<close>

text \<open>A non-empty parameter that does not start with a number removes every record.\<close>

lemma nan_minPrice_drops_all:
  assumes "q ''minPrice'' = Some s" and "s \<noteq> []" and "parseFloat s = NaN"
  shows "data (getProducts ps q) = []"
    and "pagination.totalProducts (pagination (getProducts ps q)) = 0"
proof -
  have "minPriceStage q xs = []" for xs
    using assms by (simp add: minPriceStage_def truthyParam_def)
  then have "filterStages q ps = []"
    by (simp add: filterStages_def maxPriceStage_def)
  then have "sortStage q (filterStages q ps) = []"
    using length_sortStage [of q "[]"] by simp
  then show "data (getProducts ps q) = []"
    and "pagination.totalProducts (pagination (getProducts ps q)) = 0"
    by (simp_all add: getProducts_def Let_def paginate_def slice_def)
qed

lemma nan_maxPrice_drops_all:
  assumes "q ''maxPrice'' = Some s" and "s \<noteq> []" and "parseFloat s = NaN"
  shows "data (getProducts ps q) = []"
    and "pagination.totalProducts (pagination (getProducts ps q)) = 0"
proof -
  have "maxPriceStage q xs = []" for xs
    using assms by (simp add: maxPriceStage_def truthyParam_def)
  then have "filterStages q ps = []"
    by (simp add: filterStages_def)
  then have "sortStage q (filterStages q ps) = []"
    using length_sortStage [of q "[]"] by simp
  then show "data (getProducts ps q) = []"
    and "pagination.totalProducts (pagination (getProducts ps q)) = 0"
    by (simp_all add: getProducts_def Let_def paginate_def slice_def)
qed

text \<open>An empty parameter is skipped like an absent one.\<close>

lemma empty_minPrice_skipped:
  "minPriceStage (q(''minPrice'' \<mapsto> [])) ps = ps" "maxPriceStage (q(''maxPrice'' \<mapsto> [])) ps = ps"
  by (simp_all add: minPriceStage_def maxPriceStage_def truthyParam_def)

text \<open>Paging for a page number and a page size that are positive.\<close>

lemma page_default:
  "parseIntParam (q ''page'') = None \<or> parseIntParam (q ''page'') = Some (Finite 0) \<Longrightarrow>
   currentPage (pagination (getProducts ps q)) = Finite 1"
  "parseIntParam (q ''limit'') = None \<or> parseIntParam (q ''limit'') = Some (Finite 0) \<Longrightarrow>
   limit (pagination (getProducts ps q)) = Finite 10"
  by (auto simp: pagination_getProducts Let_def orDefault_def)

lemma page_in_range:
  assumes "currentPage (pagination (getProducts ps q)) = Finite p" and "0 < p"
    and "limit (pagination (getProducts ps q)) = Finite l" and "0 < l"
  shows "data (getProducts ps q) =
     take (nat l) (drop (nat ((p - 1) * l)) (sortStage q (filterStages q ps)))"
proof -
  from assms(1,3) have p: "orDefault (parseIntParam (q ''page'')) 1 = Finite p"
    and l: "orDefault (parseIntParam (q ''limit'')) 10 = Finite l"
    by (simp_all add: pagination_getProducts Let_def)
  from assms(2,4) have "1 \<le> nat p" "1 \<le> nat l" by simp_all
  from paginate_pos [OF this, of "sortStage q (filterStages q ps)"] assms(2,4)
  have "paginate (sortStage q (filterStages q ps)) (Finite p) (Finite l) =
      take (nat l) (drop ((nat p - 1) * nat l) (sortStage q (filterStages q ps)))"
    by simp
  moreover have "(nat p - 1) * nat l = nat ((p - 1) * l)"
    using assms(2,4) by (simp add: nat_mult_distrib nat_diff_distrib)
  ultimately show ?thesis
    by (simp add: getProducts_def Let_def p l)
qed

lemma page_beyond_last:
  assumes "limit (pagination (getProducts ps q)) = Finite l" and "0 < l"
    and "currentPage (pagination (getProducts ps q)) = Finite p"
    and "totalPages (pagination (getProducts ps q)) < p"
  shows "data (getProducts ps q) = []" and "\<not> hasNextPage (pagination (getProducts ps q))"
proof -
  let ?pg = "pagination (getProducts ps q)"
  let ?xs = "sortStage q (filterStages q ps)"
  note md = page_metadata [of ps q]
  from md(2) [OF assms(1,2)]
  have "int (pagination.totalProducts ?pg) \<le> totalPages ?pg * l" by blast
  then have cover: "int (length (filterStages q ps)) \<le> totalPages ?pg * l"
    by (simp only: md(5))
  from assms(3,4) md(3) show "\<not> hasNextPage ?pg" by simp
  have "0 \<le> totalPages ?pg"
  proof (rule ccontr)
    assume "\<not> 0 \<le> totalPages ?pg"
    then have "totalPages ?pg * l < 0" using assms(2) by (simp add: mult_neg_pos)
    with cover show False by simp
  qed
  with assms(4) have pos: "0 < p" by simp
  have "totalPages ?pg * l \<le> (p - 1) * l"
    using assms(2,4) by (intro mult_right_mono) simp_all
  with cover have "int (length ?xs) \<le> (p - 1) * l"
    by (simp add: length_sortStage)
  then have "length ?xs \<le> nat ((p - 1) * l)" by simp
  then show "data (getProducts ps q) = []"
    by (simp add: page_in_range [OF assms(3) pos assms(1,2)])
qed

text \<open>
  C2. What the listing does for \<open>minPrice=abc\<close> on the sample data: \<open>parseFloat\<close>
  gives NaN, no price compares greater or equal to it, and the answer is the empty slice
  with \<open>totalProducts = 0\<close>, whereas the same query without the parameter returns all
  five products.
\<close>

theorem malformed_minPrice_drops_all:
  "data (getProducts sampleProducts [''minPrice'' \<mapsto> ''abc'']) = []
   \<and> pagination.totalProducts (pagination (getProducts sampleProducts [''minPrice'' \<mapsto> ''abc''])) = 0
   \<and> data (getProducts sampleProducts Map.empty) = sampleProducts
   \<and> pagination.totalProducts (pagination (getProducts sampleProducts Map.empty)) = 5"
  by code_simp

text \<open>
  C3. What the listing does for \<open>page=-1&limit=2\<close> on the sample data: the page number
  stays \<open>-1\<close>, the two indices passed to \<open>slice\<close> are negative and count from the end
  of the array, and the answer holds the products 2 and 3, whereas page 1 holds the
  products 1 and 2.
\<close>

theorem negative_page_kept:
  "currentPage (pagination (getProducts sampleProducts [''page'' \<mapsto> ''-1'', ''limit'' \<mapsto> ''2'']))
       = Finite (- 1)
   \<and> map id' (data (getProducts sampleProducts [''page'' \<mapsto> ''-1'', ''limit'' \<mapsto> ''2'']))
       = [''2'', ''3'']
   \<and> map id' (paginate sampleProducts (Finite 1) (Finite 2)) = [''1'', ''2'']"
  by code_simp

subsection \<open>Consistency of the statistics\<close>

lemma total_price: "foldl (\<lambda>sum p. sum + price p) a ps = a + sum_list (map price ps)"
  by (induction ps arbitrary: a) simp_all

lemma keys_bumped:
  "map fst (map (\<lambda>(k, e). if k = c then (k, bump p e) else (k, e)) es) = map fst es"
  by (induction es) auto

lemma counts_bumped:
  assumes "distinct (map fst es)" and "c \<in> set (map fst es)"
  shows "sum_list (map (\<lambda>(k, e). count' e) (map (\<lambda>(k, e). if k = c then (k, bump p e) else (k, e)) es))
      = sum_list (map (\<lambda>(k, e). count' e) es) + 1"
  using assms
proof (induction es)
  case Nil
  then show ?case by simp
next
  case (Cons x es)
  obtain k e where x: "x = (k, e)" by (cases x)
  show ?case
  proof (cases "k = c")
    case True
    with Cons.prems x have "c \<notin> set (map fst es)" by simp
    then have "map (\<lambda>(k, e). if k = c then (k, bump p e) else (k, e)) es = es"
      by (induction es) auto
    with True x show ?thesis by (simp add: bump_def)
  next
    case False
    with Cons x show ?thesis by simp
  qed
qed

lemma values_bumped:
  assumes "distinct (map fst es)" and "c \<in> set (map fst es)"
  shows "sum_list (map (\<lambda>(k, e). categoryStats.totalValue e)
            (map (\<lambda>(k, e). if k = c then (k, bump p e) else (k, e)) es))
      = sum_list (map (\<lambda>(k, e). categoryStats.totalValue e) es) + price p"
  using assms
proof (induction es)
  case Nil
  then show ?case by simp
next
  case (Cons x es)
  obtain k e where x: "x = (k, e)" by (cases x)
  show ?case
  proof (cases "k = c")
    case True
    with Cons.prems x have "c \<notin> set (map fst es)" by simp
    then have "map (\<lambda>(k, e). if k = c then (k, bump p e) else (k, e)) es = es"
      by (induction es) auto
    with True x show ?thesis by (simp add: bump_def)
  next
    case False
    with Cons x show ?thesis by simp
  qed
qed

lemma tally_step:
  assumes "distinct (map fst es)" and "\<not> inheritedKey (category p)"
  shows "distinct (map fst (tally es p))"
    and "sum_list (map (\<lambda>(k, e). count' e) (tally es p))
          = sum_list (map (\<lambda>(k, e). count' e) es) + 1"
    and "sum_list (map (\<lambda>(k, e). categoryStats.totalValue e) (tally es p))
          = sum_list (map (\<lambda>(k, e). categoryStats.totalValue e) es) + price p"
proof -
  show "distinct (map fst (tally es p))"
    using assms by (simp add: tally_def keys_bumped del: map_map)
  show "sum_list (map (\<lambda>(k, e). count' e) (tally es p))
          = sum_list (map (\<lambda>(k, e). count' e) es) + 1"
    using assms counts_bumped [of es "category p" p]
    by (simp add: tally_def bump_def del: map_map)
  show "sum_list (map (\<lambda>(k, e). categoryStats.totalValue e) (tally es p))
          = sum_list (map (\<lambda>(k, e). categoryStats.totalValue e) es) + price p"
    using assms values_bumped [of es "category p" p]
    by (simp add: tally_def bump_def del: map_map)
qed

lemma tally_all:
  assumes "distinct (map fst es)" and "\<forall>p \<in> set ps. \<not> inheritedKey (category p)"
  shows "distinct (map fst (foldl tally es ps))
      \<and> sum_list (map (\<lambda>(k, e). count' e) (foldl tally es ps))
          = sum_list (map (\<lambda>(k, e). count' e) es) + length ps
      \<and> sum_list (map (\<lambda>(k, e). categoryStats.totalValue e) (foldl tally es ps))
          = sum_list (map (\<lambda>(k, e). categoryStats.totalValue e) es) + sum_list (map price ps)"
  using assms
proof (induction ps arbitrary: es)
  case Nil
  then show ?case by simp
next
  case (Cons p ps)
  from Cons.prems have p: "\<not> inheritedKey (category p)"
    and rest: "\<forall>p \<in> set ps. \<not> inheritedKey (category p)" by simp_all
  note step = tally_step [OF Cons.prems(1) p]
  from Cons.IH [OF step(1) rest] show ?case by (simp add: step(2,3))
qed

text \<open>When no category is a name inherited from \<open>Object.prototype\<close>, the summary is
  consistent.\<close>

lemma stats_consistent:
  assumes "\<forall>p \<in> set ps. \<not> inheritedKey (category p)"
  shows "stats.inStock (getStats ps) + outOfStock (getStats ps) = stats.totalProducts (getStats ps)"
    and "sum_list (map (\<lambda>(k, e). count' e) (byCategory (getStats ps)))
          = stats.totalProducts (getStats ps)"
    and "sum_list (map (\<lambda>(k, e). categoryStats.totalValue e) (byCategory (getStats ps)))
          = stats.totalValue (getStats ps)"
    and "0 < stats.totalProducts (getStats ps) \<Longrightarrow>
         averagePrice (getStats ps)
           = stats.totalValue (getStats ps) / rat_of_nat (stats.totalProducts (getStats ps))"
proof -
  show "stats.inStock (getStats ps) + outOfStock (getStats ps) = stats.totalProducts (getStats ps)"
    using sum_length_filter_compl [of "\<lambda>p. inStock p" ps] by (simp add: getStats_def Let_def)
  from tally_all [of "[]" ps] assms
  show "sum_list (map (\<lambda>(k, e). count' e) (byCategory (getStats ps)))
          = stats.totalProducts (getStats ps)"
    and "sum_list (map (\<lambda>(k, e). categoryStats.totalValue e) (byCategory (getStats ps)))
          = stats.totalValue (getStats ps)"
    by (simp_all add: getStats_def Let_def total_price)
  show "0 < stats.totalProducts (getStats ps) \<Longrightarrow>
         averagePrice (getStats ps)
           = stats.totalValue (getStats ps) / rat_of_nat (stats.totalProducts (getStats ps))"
    by (simp add: getStats_def Let_def)
qed

text \<open>
  C10. What the statistics are for the sample data extended by one product of the category
  \<open>constructor\<close>: six products in total worth 2480, while the category entries count
  five products worth 2450, because no entry is made for the inherited name.
\<close>

theorem inherited_category_not_counted:
  "stats.totalProducts (getStats (sampleProducts @ [\<lparr>id' = ''6'', name = ''Brick set'',
       description = ''Construction toy'', price = 30, category = ''constructor'',
       inStock = True\<rparr>])) = 6
   \<and> sum_list (map (\<lambda>(k, e). count' e) (byCategory (getStats (sampleProducts @ [\<lparr>id' = ''6'',
       name = ''Brick set'', description = ''Construction toy'', price = 30,
       category = ''constructor'', inStock = True\<rparr>])))) = 5
   \<and> stats.totalValue (getStats (sampleProducts @ [\<lparr>id' = ''6'', name = ''Brick set'',
       description = ''Construction toy'', price = 30, category = ''constructor'',
       inStock = True\<rparr>])) = 2480
   \<and> sum_list (map (\<lambda>(k, e). categoryStats.totalValue e) (byCategory (getStats (sampleProducts @
       [\<lparr>id' = ''6'', name = ''Brick set'', description = ''Construction toy'', price = 30,
       category = ''constructor'', inStock = True\<rparr>])))) = 2450"
  by code_simp

end
